theory Spec2Isabelle
  imports Complex_Main
begin

section \<open>JavaScript numbers\<close>

text \<open>
  A JavaScript number is a finite value or one of the three special values of IEEE 754.
  Finite values are idealised as reals: arithmetic on them is exact, so rounding, overflow
  to infinity and the sign of zero are outside this model. The special values are kept,
  because the component produces them: \<open>-Infinity\<close> is returned by \<open>getFilterGain\<close>,
  and a division by zero or a logarithm of a non-positive number yields an infinity or
  \<open>NaN\<close> where HOL's total functions would yield an arbitrary real.
\<close>

datatype jsnum = Num real | PosInf | NegInf | NaN

fun isFinite :: "jsnum \<Rightarrow> bool" where
  "isFinite (Num _) = True"
| "isFinite _ = False"

fun jneg :: "jsnum \<Rightarrow> jsnum" where
  "jneg (Num a) = Num (- a)"
| "jneg PosInf = NegInf"
| "jneg NegInf = PosInf"
| "jneg NaN = NaN"

fun jadd :: "jsnum \<Rightarrow> jsnum \<Rightarrow> jsnum" where
  "jadd (Num a) (Num b) = Num (a + b)"
| "jadd NaN _ = NaN"
| "jadd _ NaN = NaN"
| "jadd PosInf NegInf = NaN"
| "jadd NegInf PosInf = NaN"
| "jadd PosInf _ = PosInf"
| "jadd _ PosInf = PosInf"
| "jadd NegInf _ = NegInf"
| "jadd _ NegInf = NegInf"

definition jsub :: "jsnum \<Rightarrow> jsnum \<Rightarrow> jsnum" where
  "jsub a b = jadd a (jneg b)"

text \<open>The sign of a product or quotient with an infinite operand.\<close>

definition signed_inf :: "bool \<Rightarrow> jsnum" where
  "signed_inf positive = (if positive then PosInf else NegInf)"

fun jmul :: "jsnum \<Rightarrow> jsnum \<Rightarrow> jsnum" where
  "jmul (Num a) (Num b) = Num (a * b)"
| "jmul NaN _ = NaN"
| "jmul _ NaN = NaN"
| "jmul (Num a) PosInf = (if a = 0 then NaN else signed_inf (0 < a))"
| "jmul (Num a) NegInf = (if a = 0 then NaN else signed_inf (a < 0))"
| "jmul PosInf (Num b) = (if b = 0 then NaN else signed_inf (0 < b))"
| "jmul NegInf (Num b) = (if b = 0 then NaN else signed_inf (b < 0))"
| "jmul PosInf PosInf = PosInf"
| "jmul NegInf NegInf = PosInf"
| "jmul PosInf NegInf = NegInf"
| "jmul NegInf PosInf = NegInf"

fun jdiv :: "jsnum \<Rightarrow> jsnum \<Rightarrow> jsnum" where
  "jdiv (Num a) (Num b) =
     (if b \<noteq> 0 then Num (a / b) else if a = 0 then NaN else signed_inf (0 < a))"
| "jdiv NaN _ = NaN"
| "jdiv _ NaN = NaN"
| "jdiv (Num a) PosInf = Num 0"
| "jdiv (Num a) NegInf = Num 0"
| "jdiv PosInf (Num b) = signed_inf (0 \<le> b)"
| "jdiv NegInf (Num b) = signed_inf (b < 0)"
| "jdiv PosInf PosInf = NaN"
| "jdiv PosInf NegInf = NaN"
| "jdiv NegInf PosInf = NaN"
| "jdiv NegInf NegInf = NaN"

text \<open>\<open>Math.log2\<close> and \<open>Math.log10\<close> are \<open>jlog 2\<close> and \<open>jlog 10\<close>.\<close>

fun jlog :: "real \<Rightarrow> jsnum \<Rightarrow> jsnum" where
  "jlog base (Num a) = (if 0 < a then Num (log base a) else if a = 0 then NegInf else NaN)"
| "jlog base PosInf = PosInf"
| "jlog base NegInf = NaN"
| "jlog base NaN = NaN"

fun jexp :: "jsnum \<Rightarrow> jsnum" where
  "jexp (Num a) = Num (exp a)"
| "jexp PosInf = PosInf"
| "jexp NegInf = Num 0"
| "jexp NaN = NaN"

text \<open>Comparisons: every comparison with \<open>NaN\<close> is false.\<close>

fun jle :: "jsnum \<Rightarrow> jsnum \<Rightarrow> bool" where
  "jle (Num a) (Num b) = (a \<le> b)"
| "jle NaN _ = False"
| "jle _ NaN = False"
| "jle NegInf _ = True"
| "jle (Num a) PosInf = True"
| "jle PosInf PosInf = True"
| "jle (Num a) NegInf = False"
| "jle PosInf (Num b) = False"
| "jle PosInf NegInf = False"

text \<open>\<open>===\<close> on numbers: \<open>NaN\<close> is not equal to itself.\<close>

definition jeq :: "jsnum \<Rightarrow> jsnum \<Rightarrow> bool" where
  "jeq a b = (a \<noteq> NaN \<and> a = b)"

text \<open>\<open>Math.max\<close> and \<open>Math.min\<close> of two arguments: \<open>NaN\<close> if either is.\<close>

definition jmax :: "jsnum \<Rightarrow> jsnum \<Rightarrow> jsnum" where
  "jmax a b = (if a = NaN \<or> b = NaN then NaN else if jle a b then b else a)"

definition jmin :: "jsnum \<Rightarrow> jsnum \<Rightarrow> jsnum" where
  "jmin a b = (if a = NaN \<or> b = NaN then NaN else if jle a b then a else b)"

section \<open>Filters\<close>

text \<open>
  A filter is a plain object \<open>{id, type, hz, db, q}\<close> or \<open>{id, type, b0, b1, b2, a1, a2}\<close>;
  the record is \<open>eq_filter\<close>, as HOL has a \<open>filter\<close> of its own. The \<open>type\<close> tag is a
  string; every string other than the four known ones falls into the \<open>default\<close> branch
  of \<open>getFilterGain\<close> and is \<open>OtherType\<close> here. The numeric fields hold finite numbers
  (the parent component supplies finite values, and a drag stores clamped values only), so
  they are reals; results of computations are \<open>jsnum\<close>.
\<close>

datatype filter_type = Peaking | LowShelf | HighShelf | Custom | OtherType

record eq_filter =
  fid :: int
  ftype :: filter_type
  hz :: real
  db :: real
  q :: real
  b0 :: real
  b1 :: real
  b2 :: real
  a1 :: real
  a2 :: real

definition SAMPLE_RATE :: real where
  "SAMPLE_RATE = 48000"

text \<open>
  The magnitude of the biquad response of a custom filter (lines 86 to 99 of
  \<open>ParametricEQ.vue\<close>). Sines, cosines, sums of squares and their square roots of finite
  numbers are finite; only the final quotient can leave the reals.
\<close>

definition numReal :: "eq_filter \<Rightarrow> real \<Rightarrow> real" where
  "numReal flt w = b0 flt + b1 flt * cos w + b2 flt * cos (2 * w)"

definition numImag :: "eq_filter \<Rightarrow> real \<Rightarrow> real" where
  "numImag flt w = - b1 flt * sin w - b2 flt * sin (2 * w)"

definition denReal :: "eq_filter \<Rightarrow> real \<Rightarrow> real" where
  "denReal flt w = 1 + a1 flt * cos w + a2 flt * cos (2 * w)"

definition denImag :: "eq_filter \<Rightarrow> real \<Rightarrow> real" where
  "denImag flt w = - a1 flt * sin w - a2 flt * sin (2 * w)"

definition magnitude :: "eq_filter \<Rightarrow> real \<Rightarrow> jsnum" where
  "magnitude flt freq =
     (let w = (2 * pi * freq) / SAMPLE_RATE
      in jdiv (Num (sqrt ((numReal flt w)\<^sup>2 + (numImag flt w)\<^sup>2)))
              (Num (sqrt ((denReal flt w)\<^sup>2 + (denImag flt w)\<^sup>2))))"

definition getFilterGain :: "eq_filter \<Rightarrow> real \<Rightarrow> jsnum" where
  "getFilterGain flt freq =
     (case ftype flt of
        Custom \<Rightarrow>
          (let m = magnitude flt freq
           in if jeq m (Num 0) then NegInf else jmul (Num 20) (jlog 10 m))
      | OtherType \<Rightarrow> Num 0
      | _ \<Rightarrow>
          (let G = db flt; f0 = hz flt; Q = q flt
           in if ftype flt = Peaking then
                if Q \<le> 0 then Num 0
                else
                  (let x = jmul (jlog 2 (jdiv (Num freq) (Num f0))) (Num Q);
                       gain = jdiv (Num G) (jadd (Num 1) (jmul (jmul (Num 4) x) x))
                   in if G > 0 then jmax (Num 0) gain else jmin (Num 0) gain)
              else if ftype flt = LowShelf then
                (let steepness = Q * 5;
                     normalizedFreq =
                       jmul (jsub (jlog 10 (Num freq)) (jlog 10 (Num f0))) (Num steepness);
                     factor = jdiv (Num 1) (jadd (Num 1) (jexp normalizedFreq))
                 in jmul (Num G) factor)
              else
                (let steepness = Q * 5;
                     normalizedFreq =
                       jmul (jsub (jlog 10 (Num freq)) (jlog 10 (Num f0))) (Num steepness);
                     factor = jdiv (Num 1) (jadd (Num 1) (jexp (jneg normalizedFreq)))
                 in jmul (Num G) factor)))"

text \<open>\<open>getTotalGain\<close>: a left-to-right \<open>reduce\<close> over the internal filter list from 0.\<close>

definition getTotalGain :: "eq_filter list \<Rightarrow> real \<Rightarrow> jsnum" where
  "getTotalGain internalFilters freq =
     foldl (\<lambda>total flt. jadd total (getFilterGain flt freq)) (Num 0) internalFilters"

section \<open>Scales and sampling\<close>

text \<open>
  The scales and \<open>d3.range\<close> come from the d3 library, which is not part of the
  repository; they are modelled after d3-scale's continuous scales and d3-array's
  \<open>range\<close>. A continuous scale inverts a pixel \<open>y\<close> by normalising it over the range,
  \<open>t = (y - r0) / (r1 - r0)\<close> (the constant \<open>0.5\<close> for an empty range, and with both
  ends swapped when the range is descending), and interpolating the transformed domain,
  \<open>a * (1 - t) + b * t\<close>; the log scale then applies \<open>Math.exp\<close>.
\<close>

definition normalize :: "real \<Rightarrow> real \<Rightarrow> real \<Rightarrow> real" where
  "normalize a b x = (if b - a \<noteq> 0 then (x - a) / (b - a) else 0.5)"

definition interpolateNumber :: "real \<Rightarrow> real \<Rightarrow> real \<Rightarrow> real" where
  "interpolateNumber a b t = a * (1 - t) + b * t"

definition bimap :: "real \<Rightarrow> real \<Rightarrow> real \<Rightarrow> real \<Rightarrow> real \<Rightarrow> real" where
  "bimap d0 d1 r0 r1 x =
     (if d1 < d0 then interpolateNumber r1 r0 (normalize d1 d0 x)
      else interpolateNumber r0 r1 (normalize d0 d1 x))"

text \<open>\<open>xScale = d3.scaleLog().domain([10, 20000]).range([0, innerWidth])\<close>, inverted.\<close>

definition xScale_invert :: "real \<Rightarrow> real \<Rightarrow> real" where
  "xScale_invert innerWidth x = exp (bimap 0 innerWidth (ln 10) (ln 20000) x)"

text \<open>
  \<open>yScale = d3.scaleLinear().domain([-25, 25]).range([innerHeight, 0])\<close>, inverted;
  \<open>height\<close> is always 400 and the margins are 60 at the top and 30 at the bottom.
\<close>

definition innerHeight :: real where
  "innerHeight = 400 - 60 - 30"

definition yScale_invert :: "real \<Rightarrow> real" where
  "yScale_invert y = bimap innerHeight 0 (-25) 25 y"

text \<open>
  \<open>d3.range(start, stop, step)\<close>: the \<open>max(0, ceil((stop - start) / step))\<close> values
  \<open>start + i * step\<close>; \<open>stop\<close> itself is never among them.
\<close>

definition d3_range :: "real \<Rightarrow> real \<Rightarrow> real \<Rightarrow> real list" where
  "d3_range start stop step =
     map (\<lambda>i. start + real i * step) [0 ..< nat (max 0 \<lceil>(stop - start) / step\<rceil>)]"

record sample_point =
  sfreq :: real
  sdb :: jsnum

text \<open>The two data sets of \<open>updateCurves\<close> (lines 205 to 220).\<close>

definition lineData :: "real \<Rightarrow> eq_filter list \<Rightarrow> sample_point list" where
  "lineData innerWidth internalFilters =
     map (\<lambda>x. \<lparr>sfreq = xScale_invert innerWidth x,
               sdb = getTotalGain internalFilters (xScale_invert innerWidth x)\<rparr>)
         (d3_range 0 innerWidth 2)"

definition selectedLineData :: "real \<Rightarrow> eq_filter \<Rightarrow> sample_point list" where
  "selectedLineData innerWidth sf =
     map (\<lambda>x. \<lparr>sfreq = xScale_invert innerWidth x,
               sdb = getFilterGain sf (xScale_invert innerWidth x)\<rparr>)
         (d3_range 0 innerWidth 2)"

section \<open>The throttle\<close>

text \<open>
  \<open>throttle(func, limit)\<close> returns a closure over the flag \<open>inThrottle\<close>. The closure's
  private state is the flag and the timeouts it has set that have not run yet, each with
  the time from which it may run. Time is a clock in milliseconds; the flag starts
  \<open>undefined\<close>, which is false.
\<close>

record throttle_state =
  inThrottle :: bool
  pending :: "nat list"

definition throttle_init :: throttle_state where
  "throttle_init = \<lparr>inThrottle = False, pending = []\<rparr>"

definition throttle :: "('a \<Rightarrow> 's \<Rightarrow> 's) \<Rightarrow> nat \<Rightarrow> nat \<Rightarrow> 'a \<Rightarrow> throttle_state \<times> 's \<Rightarrow> throttle_state \<times> 's" where
  "throttle func limit now args = (\<lambda>(th, s).
     if \<not> inThrottle th
     then (\<lparr>inThrottle = True, pending = pending th @ [now + limit]\<rparr>, func args s)
     else (th, s))"

text \<open>The timeouts that are due at \<open>now\<close> run: each sets the flag to false.\<close>

definition run_timeouts :: "nat \<Rightarrow> throttle_state \<Rightarrow> throttle_state" where
  "run_timeouts now th =
     (if \<exists>d \<in> set (pending th). d \<le> now
      then \<lparr>inThrottle = False, pending = [d \<leftarrow> pending th. now < d]\<rparr>
      else th)"

section \<open>The component and its drag handlers\<close>

text \<open>
  The state of the component: \<open>filters\<close> is the model value owned by the parent,
  \<open>internalFilters\<close> the working copy that is drawn; \<open>totalCurve\<close> and \<open>selectedArea\<close>
  are the data bound to the two paths by \<open>updateCurves\<close> (\<open>None\<close>: the path is cleared).
  Deep copies by \<open>JSON.parse(JSON.stringify(_))\<close> are the identity on values.
\<close>

record component =
  filters :: "eq_filter list"
  internalFilters :: "eq_filter list"
  selectedId :: int
  isDragging :: bool
  innerWidth :: real
  totalCurve :: "sample_point list"
  selectedArea :: "sample_point list option"
  thr :: throttle_state
  clock :: nat

definition selectedFilter :: "component \<Rightarrow> eq_filter option" where
  "selectedFilter st = find (\<lambda>f. fid f = selectedId st) (internalFilters st)"

text \<open>
  The handlers assign to fields of \<open>sf\<close>, the object found by \<open>selectedFilter\<close>: the first
  filter of the internal list with the selected id is replaced.
\<close>

fun update_selected :: "int \<Rightarrow> (eq_filter \<Rightarrow> eq_filter) \<Rightarrow> eq_filter list \<Rightarrow> eq_filter list" where
  "update_selected i g [] = []"
| "update_selected i g (f # fs) =
     (if fid f = i then g f # fs else f # update_selected i g fs)"

definition updateCurves :: "component \<Rightarrow> component" where
  "updateCurves st =
     st\<lparr>totalCurve := lineData (innerWidth st) (internalFilters st),
        selectedArea :=
          (case selectedFilter st of
             Some sf \<Rightarrow> Some (selectedLineData (innerWidth st) sf)
           | None \<Rightarrow> None)\<rparr>"

definition throttledFiltersUpdate :: "eq_filter list \<Rightarrow> component \<Rightarrow> component" where
  "throttledFiltersUpdate v st =
     (let (th, st') = throttle (\<lambda>x s. s\<lparr>filters := x\<rparr>) 50 (clock st) v (thr st, st)
      in st'\<lparr>thr := th\<rparr>)"

text \<open>
  The drag handlers are attached only when a filter is selected and it is not a custom
  one (line 279); otherwise there is no handle to drag.
\<close>

definition draggable :: "component \<Rightarrow> eq_filter option" where
  "draggable st =
     (case selectedFilter st of
        Some sf \<Rightarrow> if ftype sf \<noteq> Custom then Some sf else None
      | None \<Rightarrow> None)"

text \<open>The \<open>start\<close> and \<open>end\<close> handlers are the same for the main handle and the Q handles.\<close>

definition drag_start :: "component \<Rightarrow> component" where
  "drag_start st = (case draggable st of None \<Rightarrow> st | Some sf \<Rightarrow> st\<lparr>isDragging := True\<rparr>)"

definition drag_end :: "component \<Rightarrow> component" where
  "drag_end st =
     (case draggable st of
        None \<Rightarrow> st
      | Some sf \<Rightarrow> st\<lparr>isDragging := False, filters := internalFilters st\<rparr>)"

text \<open>The main handle: the \<open>drag\<close> handler of \<open>handleDrag\<close> (lines 319 to 347).\<close>

definition handleDrag_update :: "real \<Rightarrow> real \<Rightarrow> real \<Rightarrow> eq_filter \<Rightarrow> eq_filter" where
  "handleDrag_update w x y sf =
     (let sf1 = sf\<lparr>hz := max 20 (min 20000 (xScale_invert w x))\<rparr>;
          draggedDb = yScale_invert y
      in if ftype sf1 = Peaking then sf1\<lparr>db := max (-25) (min 25 draggedDb)\<rparr>
         else (let fullGain = draggedDb * 2 in sf1\<lparr>db := max (-25) (min 25 fullGain)\<rparr>))"

definition handleDrag_drag :: "real \<Rightarrow> real \<Rightarrow> component \<Rightarrow> component" where
  "handleDrag_drag x y st =
     (case draggable st of
        None \<Rightarrow> st
      | Some sf \<Rightarrow>
          (let st1 = st\<lparr>internalFilters :=
                         update_selected (selectedId st) (handleDrag_update (innerWidth st) x y)
                           (internalFilters st)\<rparr>;
               st2 = updateCurves st1
           in throttledFiltersUpdate (internalFilters st2) st2))"

text \<open>
  The Q handles: the \<open>drag\<close> handler of \<open>qDrag\<close> (lines 365 to 400); \<open>d\<close> is the datum of
  the handle, 0 for the left one and 1 for the right one. \<open>qDrag_q\<close> is the value assigned
  to \<open>sf.q\<close> for the handle frequency \<open>handleFreq\<close>.
\<close>

definition qDrag_symmetryFactor :: "nat \<Rightarrow> real \<Rightarrow> eq_filter \<Rightarrow> jsnum" where
  "qDrag_symmetryFactor d handleFreq sf =
     (if d = 1 then jmax (Num 1.001) (jdiv (Num handleFreq) (Num (hz sf)))
      else jmax (Num 1.001) (jdiv (Num (hz sf)) (Num handleFreq)))"

definition qDrag_q :: "nat \<Rightarrow> real \<Rightarrow> eq_filter \<Rightarrow> jsnum" where
  "qDrag_q d handleFreq sf =
     (let symmetryFactor = qDrag_symmetryFactor d handleFreq sf;
          newQ = jdiv (Num 1) (jsub symmetryFactor (Num 1))
      in jmax (Num 0.1) (jmin (Num 20) newQ))"

text \<open>
  A real field cannot hold a value that is not finite: \<open>qDrag_q_finite\<close> below shows that
  the value stored by a drag always is, so the second case is never taken.
\<close>

definition qDrag_update :: "real \<Rightarrow> nat \<Rightarrow> real \<Rightarrow> eq_filter \<Rightarrow> eq_filter" where
  "qDrag_update w d x sf =
     (let handleFreq = xScale_invert w (x + 12)
      in case qDrag_q d handleFreq sf of Num v \<Rightarrow> sf\<lparr>q := v\<rparr> | _ \<Rightarrow> sf)"

definition qDrag_drag :: "nat \<Rightarrow> real \<Rightarrow> component \<Rightarrow> component" where
  "qDrag_drag d x st =
     (case draggable st of
        None \<Rightarrow> st
      | Some sf \<Rightarrow>
          (let st1 = st\<lparr>internalFilters :=
                         update_selected (selectedId st) (qDrag_update (innerWidth st) d x)
                           (internalFilters st)\<rparr>;
               st2 = updateCurves st1
           in throttledFiltersUpdate (internalFilters st2) st2))"

text \<open>
  The forward mapping of \<open>updateHandles\<close> (lines 423 and 424): the frequencies at which
  the two Q handles are drawn.
\<close>

definition qPositions :: "eq_filter \<Rightarrow> jsnum \<times> jsnum" where
  "qPositions sf =
     (let symmetryFactor = jadd (Num 1) (jdiv (Num 1) (Num (q sf)))
      in (jdiv (Num (hz sf)) symmetryFactor, jmul (Num (hz sf)) symmetryFactor))"

text \<open>
  What happens to the component: pointer events, and time passing (\<open>Elapse n\<close>: the clock
  advances by \<open>n\<close> ms and the timeouts that are due run).
\<close>

datatype event =
  DragStart | MainDrag real real | QDrag nat real | DragEnd | Elapse nat

definition elapse :: "nat \<Rightarrow> component \<Rightarrow> component" where
  "elapse n st = st\<lparr>clock := clock st + n, thr := run_timeouts (clock st + n) (thr st)\<rparr>"

fun step :: "component \<Rightarrow> event \<Rightarrow> component" where
  "step st DragStart = drag_start st"
| "step st (MainDrag x y) = handleDrag_drag x y st"
| "step st (QDrag d x) = qDrag_drag d x st"
| "step st DragEnd = drag_end st"
| "step st (Elapse n) = elapse n st"

definition run :: "component \<Rightarrow> event list \<Rightarrow> component" where
  "run st es = foldl step st es"

text \<open>Scenario A of the specification: the peaking filter \<open>{hz: 1000, db: 6, q: 1}\<close>.\<close>

definition scenarioA :: eq_filter where
  "scenarioA = \<lparr>fid = 1, ftype = Peaking, hz = 1000, db = 6, q = 1,
                 b0 = 0, b1 = 0, b2 = 0, a1 = 0, a2 = 0\<rparr>"

text \<open>
  The specification's words for the aggregate response: the arithmetic sum of the gains of
  the filters, which is 0 for no filter.
\<close>

primrec sum_of_gains :: "jsnum list \<Rightarrow> jsnum" where
  "sum_of_gains [] = Num 0"
| "sum_of_gains (g # gs) = jadd g (sum_of_gains gs)"

text \<open>Shelf filters used in the examples below.\<close>

definition lowShelf :: "real \<Rightarrow> real \<Rightarrow> real \<Rightarrow> eq_filter" where
  "lowShelf h g qv = \<lparr>fid = 2, ftype = LowShelf, hz = h, db = g, q = qv,
                        b0 = 0, b1 = 0, b2 = 0, a1 = 0, a2 = 0\<rparr>"

definition highShelf :: "real \<Rightarrow> real \<Rightarrow> real \<Rightarrow> eq_filter" where
  "highShelf h g qv = \<lparr>fid = 3, ftype = HighShelf, hz = h, db = g, q = qv,
                        b0 = 0, b1 = 0, b2 = 0, a1 = 0, a2 = 0\<rparr>"

text \<open>A custom filter with the given biquad coefficients.\<close>

definition custom :: "real \<Rightarrow> real \<Rightarrow> real \<Rightarrow> real \<Rightarrow> real \<Rightarrow> eq_filter" where
  "custom c0 c1 c2 d1 d2 = \<lparr>fid = 4, ftype = Custom, hz = 0, db = 0, q = 0,
                              b0 = c0, b1 = c1, b2 = c2, a1 = d1, a2 = d2\<rparr>"

text \<open>
  The two operands of the quotient in \<open>magnitude\<close>: the absolute values of the numerator
  and of the denominator of the biquad response.
\<close>

definition numMag :: "eq_filter \<Rightarrow> real \<Rightarrow> real" where
  "numMag flt freq =
     (let w = (2 * pi * freq) / SAMPLE_RATE in sqrt ((numReal flt w)\<^sup>2 + (numImag flt w)\<^sup>2))"

definition denMag :: "eq_filter \<Rightarrow> real \<Rightarrow> real" where
  "denMag flt freq =
     (let w = (2 * pi * freq) / SAMPLE_RATE in sqrt ((denReal flt w)\<^sup>2 + (denImag flt w)\<^sup>2))"

text \<open>Scenario C of the specification: a filter with \<open>hz = 1000\<close> and \<open>q = 2\<close>.\<close>

definition scenarioC :: eq_filter where
  "scenarioC = \<lparr>fid = 1, ftype = Peaking, hz = 1000, db = 6, q = 2,
                 b0 = 0, b1 = 0, b2 = 0, a1 = 0, a2 = 0\<rparr>"

text \<open>A computed number is finite and at most \<open>eps\<close> away from a given one.\<close>

fun within_tolerance :: "real \<Rightarrow> jsnum \<Rightarrow> real \<Rightarrow> bool" where
  "within_tolerance eps (Num a) b = (\<bar>a - b\<bar> \<le> eps)"
| "within_tolerance eps _ b = False"

text \<open>
  A component in the middle of a drag: two filters, the first one selected, on a chart
  whose plot area is 700 pixels wide.
\<close>

definition dragState :: component where
  "dragState = \<lparr>filters = [scenarioA, lowShelf 100 6 0.707],
                 internalFilters = [scenarioA, lowShelf 100 6 0.707],
                 selectedId = 1, isDragging = True, innerWidth = 700,
                 totalCurve = [], selectedArea = None,
                 thr = throttle_init, clock = 0\<rparr>"

text \<open>The events that change a parameter: the \<open>drag\<close> events of either handle.\<close>

fun is_drag :: "event \<Rightarrow> bool" where
  "is_drag (MainDrag x y) = True"
| "is_drag (QDrag d x) = True"
| "is_drag _ = False"

text \<open>The time that passes during a list of events.\<close>

fun elapsed :: "event list \<Rightarrow> nat" where
  "elapsed [] = 0"
| "elapsed (Elapse n # es) = n + elapsed es"
| "elapsed (e # es) = elapsed es"

text \<open>The throttle is open and no timeout is waiting: the next change is forwarded.\<close>

definition idle :: "component \<Rightarrow> bool" where
  "idle st = (\<not> inThrottle (thr st) \<and> pending (thr st) = [])"

text \<open>The throttle is closed and the one timeout that reopens it may run from \<open>deadline\<close>.\<close>

definition waiting :: "nat \<Rightarrow> component \<Rightarrow> bool" where
  "waiting deadline st = (inThrottle (thr st) \<and> pending (thr st) = [deadline])"

section \<open>The peaking response\<close>

lemma jmax_Num: "jmax (Num a) (Num b) = Num (max a b)"
  by (simp add: jmax_def max_def)

lemma jmin_Num: "jmin (Num a) (Num b) = Num (min a b)"
  by (simp add: jmin_def min_def)

lemma peak_denominator_nonzero: "1 + 4 * x * x \<noteq> (0::real)"
proof -
  have "0 \<le> x * x" by simp
  then show ?thesis by linarith
qed

lemma peaking_finite:
  assumes "ftype flt = Peaking" and "0 < q flt" and "0 < hz flt" and "0 < fr"
  shows "getFilterGain flt fr =
           Num (let x = log 2 (fr / hz flt) * q flt; gain = db flt / (1 + 4 * x * x)
                in if 0 < db flt then max 0 gain else min 0 gain)"
  using assms peak_denominator_nonzero [of "log 2 (fr / hz flt) * q flt"]
  by (simp add: getFilterGain_def Let_def jmax_Num jmin_Num mult.assoc)

lemma peaking_at_center:
  assumes "ftype flt = Peaking" and "0 < q flt" and "hz flt \<noteq> 0"
  shows "getFilterGain flt (hz flt) = Num (db flt)"
  using assms by (simp add: getFilterGain_def Let_def jmax_Num jmin_Num)

lemma peaking_nonpositive_q:
  assumes "ftype flt = Peaking" and "q flt \<le> 0"
  shows "getFilterGain flt fr = Num 0"
  using assms by (simp add: getFilterGain_def Let_def)

text \<open>
  C2. For a peaking filter with \<open>q > 0\<close>, a positive centre frequency and a positive
  frequency \<open>fr\<close>, \<open>getFilterGain\<close> is \<open>db / (1 + 4 x\<^sup>2)\<close> with
  \<open>x = log2 (fr / hz) * q\<close>, clamped towards zero by the sign of \<open>db\<close>: the maximum with
  0 if \<open>db > 0\<close>, the minimum with 0 otherwise. At \<open>fr = hz\<close> it is \<open>db\<close> exactly. If
  \<open>q \<le> 0\<close> it is 0 at every frequency. For \<open>{hz: 1000, db: 6, q: 1}\<close> the gain is 6 at
  1000 Hz and 1.2 at 2000 Hz.
\<close>

theorem peaking_gain:
  assumes "ftype flt = Peaking"
  shows "(0 < q flt \<and> 0 < hz flt \<and> 0 < fr \<longrightarrow>
            getFilterGain flt fr =
              Num (let x = log 2 (fr / hz flt) * q flt; gain = db flt / (1 + 4 * x\<^sup>2)
                   in if db flt > 0 then max 0 gain else min 0 gain))
       \<and> (0 < q flt \<and> hz flt \<noteq> 0 \<longrightarrow> getFilterGain flt (hz flt) = Num (db flt))
       \<and> (q flt \<le> 0 \<longrightarrow> getFilterGain flt fr = Num 0)
       \<and> getFilterGain scenarioA 1000 = Num 6.0
       \<and> getFilterGain scenarioA 2000 = Num 1.2"
proof -
  have s1: "getFilterGain scenarioA 1000 = Num 6"
    using peaking_at_center [of scenarioA] by (simp add: scenarioA_def)
  have s2: "getFilterGain scenarioA 2000 = Num 1.2"
    using peaking_finite [of scenarioA 2000] by (simp add: scenarioA_def)
  show ?thesis
    using assms s1 s2 peaking_finite [of flt fr] peaking_at_center [of flt]
      peaking_nonpositive_q [of flt fr]
    by (simp add: power2_eq_square mult.assoc)
qed

theorem peaking_gain_witness:
  "getFilterGain (scenarioA\<lparr>q := 2, db := -3\<rparr>) 4000 = Num (- 3 / 65)
   \<and> getFilterGain (scenarioA\<lparr>q := 2, db := -3\<rparr>) 1000 = Num (- 3)
   \<and> getFilterGain (scenarioA\<lparr>q := 0\<rparr>) 4000 = Num 0"
proof -
  have l: "log 2 4 = (2::real)"
    using log_pow_cancel [of 2 2] by simp
  show ?thesis
    using peaking_gain [of "scenarioA\<lparr>q := 2, db := -3\<rparr>" 4000]
      peaking_gain [of "scenarioA\<lparr>q := 0\<rparr>" 4000]
    by (simp add: scenarioA_def l)
qed

section \<open>The aggregate response\<close>

lemma jadd_commute: "jadd a b = jadd b a"
  by (cases a; cases b) simp_all

lemma jadd_assoc: "jadd (jadd a b) c = jadd a (jadd b c)"
  by (cases a; cases b; cases c) simp_all

lemma jadd_zero_left: "jadd (Num 0) a = a"
  by (cases a) simp_all

lemma jadd_zero_right: "jadd a (Num 0) = a"
  by (cases a) simp_all

lemma foldl_jadd:
  "foldl (\<lambda>total flt. jadd total (g flt)) a fs = jadd a (sum_of_gains (map g fs))"
proof (induction fs arbitrary: a)
  case Nil
  show ?case by (simp add: jadd_zero_right)
next
  case (Cons f fs)
  show ?case by (simp add: Cons.IH jadd_assoc)
qed

lemma getTotalGain_sum:
  "getTotalGain fs fr = sum_of_gains (map (\<lambda>flt. getFilterGain flt fr) fs)"
  by (simp add: getTotalGain_def foldl_jadd jadd_zero_left)

lemma sum_of_gains_finite: "sum_of_gains (map Num gs) = Num (sum_list gs)"
  by (induction gs) simp_all

lemma getTotalGain_Cons:
  "getTotalGain (flt # fs) fr = jadd (getFilterGain flt fr) (getTotalGain fs fr)"
  by (simp add: getTotalGain_sum)

text \<open>
  C3. For every filter list and every frequency, \<open>getTotalGain\<close> is the arithmetic sum of
  \<open>getFilterGain\<close> over the filters of the list, starting from 0: it is 0 for the empty
  list, each further filter adds its gain in dB to the total, and when the single gains are
  the finite numbers \<open>gs\<close> the total is their sum. Gains in dB are added as they are.
\<close>

theorem total_gain_is_sum:
  "getTotalGain [] fr = Num 0
   \<and> getTotalGain fs fr = sum_of_gains (map (\<lambda>flt. getFilterGain flt fr) fs)
   \<and> getTotalGain (fs @ [flt]) fr = jadd (getTotalGain fs fr) (getFilterGain flt fr)
   \<and> (map (\<lambda>flt. getFilterGain flt fr) fs = map Num gs \<longrightarrow>
        getTotalGain fs fr = Num (sum_list gs))"
proof -
  have "getTotalGain (fs @ [flt]) fr = jadd (getTotalGain fs fr) (getFilterGain flt fr)"
    by (simp add: getTotalGain_def)
  moreover have "getTotalGain [] fr = Num 0"
    by (simp add: getTotalGain_def)
  ultimately show ?thesis
    using getTotalGain_sum [of fs fr] sum_of_gains_finite [of gs] by simp
qed

theorem total_gain_is_sum_witness:
  "getTotalGain [scenarioA, scenarioA\<lparr>db := -2\<rparr>] 1000 = Num 4"
proof -
  have "getFilterGain scenarioA 1000 = Num 6"
    using peaking_at_center [of scenarioA] by (simp add: scenarioA_def)
  moreover have "getFilterGain (scenarioA\<lparr>db := -2\<rparr>) 1000 = Num (- 2)"
    using peaking_at_center [of "scenarioA\<lparr>db := -2\<rparr>"] by (simp add: scenarioA_def)
  ultimately show ?thesis
    using total_gain_is_sum [of 1000 "[scenarioA, scenarioA\<lparr>db := -2\<rparr>]" _ "[6, -2]"]
    by simp
qed

lemma logistic_complement: "1 / (1 + exp n) + 1 / (1 + exp (- n)) = (1::real)"
proof -
  have p: "1 + exp n \<noteq> 0"
    using exp_gt_zero [of n] by linarith
  have "1 / (1 + exp (- n)) = exp n / (1 + exp n)"
    using p by (simp add: exp_minus field_simps)
  moreover have "1 / (1 + exp n) + exp n / (1 + exp n) = (1 + exp n) / (1 + exp n)"
    by (simp only: add_divide_distrib)
  ultimately show ?thesis using p by simp
qed

lemma low_shelf_finite:
  assumes "ftype flt = LowShelf" and "0 < hz flt" and "0 < fr"
  shows "getFilterGain flt fr =
           Num (db flt * (1 / (1 + exp ((log 10 fr - log 10 (hz flt)) * (q flt * 5)))))"
proof -
  have "1 + exp ((log 10 fr - log 10 (hz flt)) * (q flt * 5)) \<noteq> 0"
    using exp_gt_zero [of "(log 10 fr - log 10 (hz flt)) * (q flt * 5)"] by linarith
  then show ?thesis
    using assms by (simp add: getFilterGain_def Let_def jsub_def)
qed

lemma high_shelf_finite:
  assumes "ftype flt = HighShelf" and "0 < hz flt" and "0 < fr"
  shows "getFilterGain flt fr =
           Num (db flt * (1 / (1 + exp (- ((log 10 fr - log 10 (hz flt)) * (q flt * 5))))))"
proof -
  have "1 + exp (- ((log 10 fr - log 10 (hz flt)) * (q flt * 5))) \<noteq> 0"
    using exp_gt_zero [of "- ((log 10 fr - log 10 (hz flt)) * (q flt * 5))"] by linarith
  then show ?thesis
    using assms by (simp add: getFilterGain_def Let_def jsub_def)
qed

lemma shelf_pair_sum:
  assumes "ftype lo = LowShelf" and "ftype hi = HighShelf"
    and "hz hi = hz lo" and "db hi = db lo" and "q hi = q lo"
    and "0 < hz lo" and "0 < fr"
  shows "jadd (getFilterGain lo fr) (getFilterGain hi fr) = Num (db lo)"
proof -
  let ?n = "(log 10 fr - log 10 (hz lo)) * (q lo * 5)"
  have "db lo * (1 / (1 + exp ?n)) + db lo * (1 / (1 + exp (- ?n)))
          = db lo * (1 / (1 + exp ?n) + 1 / (1 + exp (- ?n)))"
    by (simp only: distrib_left)
  also have "\<dots> = db lo" by (simp only: logistic_complement mult_1_right)
  finally show ?thesis
    using assms low_shelf_finite [of lo fr] high_shelf_finite [of hi fr] by simp
qed

text \<open>
  C10. A low-shelf and a high-shelf filter with the same \<open>hz\<close>, \<open>db\<close> and \<open>q\<close> have
  gains that add up to \<open>db\<close> exactly at every frequency, because the two logistic factors
  \<open>1 / (1 + e\<^sup>n)\<close> and \<open>1 / (1 + e\<^sup>-\<^sup>n)\<close> sum to 1; so the pair contributes a flat
  \<open>db\<close> to the aggregate curve. Frequencies are positive, where \<open>log10\<close> is defined.
\<close>

theorem shelf_pair_flat:
  assumes "ftype lo = LowShelf" and "ftype hi = HighShelf"
    and "hz hi = hz lo" and "db hi = db lo" and "q hi = q lo"
    and "0 < hz lo" and "0 < fr"
  shows "jadd (getFilterGain lo fr) (getFilterGain hi fr) = Num (db lo)
       \<and> isFinite (getFilterGain lo fr) \<and> isFinite (getFilterGain hi fr)
       \<and> getTotalGain [lo, hi] fr = Num (db lo)
       \<and> getTotalGain (lo # hi # rest) fr = jadd (Num (db lo)) (getTotalGain rest fr)"
proof -
  have s: "jadd (getFilterGain lo fr) (getFilterGain hi fr) = Num (db lo)"
    using assms by (rule shelf_pair_sum)
  have "getTotalGain (lo # hi # rest) fr
          = jadd (jadd (getFilterGain lo fr) (getFilterGain hi fr)) (getTotalGain rest fr)"
    by (simp add: getTotalGain_Cons jadd_assoc)
  moreover have "getTotalGain [lo, hi] fr = jadd (getFilterGain lo fr) (getFilterGain hi fr)"
    by (simp add: getTotalGain_def jadd_zero_left)
  ultimately show ?thesis
    using s assms low_shelf_finite [of lo fr] high_shelf_finite [of hi fr] by simp
qed

theorem shelf_pair_flat_witness:
  "jadd (getFilterGain (lowShelf 100 6 0.707) 250) (getFilterGain (highShelf 100 6 0.707) 250) = Num 6
   \<and> getTotalGain [lowShelf 100 6 0.707, highShelf 100 6 0.707] 250 = Num 6
   \<and> getTotalGain [lowShelf 100 6 0.707, highShelf 100 6 0.707, scenarioA] 1000 = Num 12"
proof -
  have "getFilterGain scenarioA 1000 = Num 6"
    using peaking_at_center [of scenarioA] by (simp add: scenarioA_def)
  then have "getTotalGain [scenarioA] 1000 = Num 6"
    by (simp add: getTotalGain_def)
  then show ?thesis
    using shelf_pair_flat [of "lowShelf 100 6 0.707" "highShelf 100 6 0.707" 250 "[]"]
      shelf_pair_flat [of "lowShelf 100 6 0.707" "highShelf 100 6 0.707" 1000 "[scenarioA]"]
    by (simp add: lowShelf_def highShelf_def)
qed

section \<open>The custom (biquad) response\<close>

lemma magnitude_quotient: "magnitude flt fr = jdiv (Num (numMag flt fr)) (Num (denMag flt fr))"
  by (simp add: magnitude_def numMag_def denMag_def Let_def)

lemma numMag_nonneg: "0 \<le> numMag flt fr"
  by (simp add: numMag_def Let_def)

lemma denMag_nonneg: "0 \<le> denMag flt fr"
  by (simp add: denMag_def Let_def)

lemma numMag_cmod:
  "numMag flt fr =
     cmod (of_real (b0 flt) + of_real (b1 flt) * cis (- (2 * pi * fr / SAMPLE_RATE))
             + of_real (b2 flt) * cis (- (2 * (2 * pi * fr / SAMPLE_RATE))))"
  by (simp add: numMag_def Let_def cmod_def numReal_def numImag_def)

lemma denMag_cmod:
  "denMag flt fr =
     cmod (1 + of_real (a1 flt) * cis (- (2 * pi * fr / SAMPLE_RATE))
             + of_real (a2 flt) * cis (- (2 * (2 * pi * fr / SAMPLE_RATE))))"
  by (simp add: denMag_def Let_def cmod_def denReal_def denImag_def)

lemma magnitude_zero_iff:
  "magnitude flt fr = Num 0 \<longleftrightarrow> numMag flt fr = 0 \<and> denMag flt fr \<noteq> 0"
  by (auto simp: magnitude_quotient signed_inf_def)

lemma custom_gain_cases:
  assumes "ftype flt = Custom"
  shows "getFilterGain flt fr =
          (if denMag flt fr \<noteq> 0 then
             if numMag flt fr = 0 then NegInf
             else Num (20 * log 10 (numMag flt fr / denMag flt fr))
           else if numMag flt fr = 0 then NaN else PosInf)"
proof -
  have "0 < numMag flt fr / denMag flt fr" if "numMag flt fr \<noteq> 0" "denMag flt fr \<noteq> 0"
    using that numMag_nonneg [of flt fr] denMag_nonneg [of flt fr] by simp
  moreover have "0 < numMag flt fr" if "numMag flt fr \<noteq> 0"
    using that numMag_nonneg [of flt fr] by simp
  ultimately show ?thesis
    using assms
    by (simp add: getFilterGain_def Let_def magnitude_quotient jeq_def signed_inf_def)
qed

lemma zero_numerator_mags:
  "numMag (custom 0 0 0 0 0) fr = 0 \<and> denMag (custom 0 0 0 0 0) fr = 1"
  by (simp add: numMag_def denMag_def Let_def numReal_def numImag_def denReal_def denImag_def
      custom_def)

lemma identity_mags:
  "numMag (custom 1 0 0 0 0) fr = 1 \<and> denMag (custom 1 0 0 0 0) fr = 1"
  by (simp add: numMag_def denMag_def Let_def numReal_def numImag_def denReal_def denImag_def
      custom_def)

text \<open>
  C8. For a custom filter, if the magnitude \<open>|numerator| / |denominator|\<close> of the biquad
  response is 0 at a frequency, \<open>getFilterGain\<close> returns negative infinity; otherwise it
  returns \<open>20 * log10 magnitude\<close>. The magnitude is 0 exactly when the numerator vanishes
  and the denominator does not; when neither vanishes the gain is the finite number
  \<open>20 * log10 (|numerator| / |denominator|)\<close>. No finite floor is applied by the
  component itself: for the filter with all coefficients 0 the value \<open>-Infinity\<close> is also
  what \<open>getTotalGain\<close> hands to the plot.
\<close>

theorem custom_gain:
  assumes "ftype flt = Custom"
  shows "(magnitude flt fr = Num 0 \<longrightarrow> getFilterGain flt fr = NegInf)
       \<and> (magnitude flt fr \<noteq> Num 0 \<longrightarrow>
            getFilterGain flt fr = jmul (Num 20) (jlog 10 (magnitude flt fr)))
       \<and> magnitude flt fr = jdiv (Num (numMag flt fr)) (Num (denMag flt fr))
       \<and> (magnitude flt fr = Num 0) = (numMag flt fr = 0 \<and> denMag flt fr \<noteq> 0)
       \<and> (numMag flt fr \<noteq> 0 \<and> denMag flt fr \<noteq> 0 \<longrightarrow>
            getFilterGain flt fr = Num (20 * log 10 (numMag flt fr / denMag flt fr)))
       \<and> (numMag flt fr = 0 \<and> denMag flt fr \<noteq> 0 \<longrightarrow> getFilterGain flt fr = NegInf)
       \<and> getFilterGain (custom 0 0 0 0 0) 1000 = NegInf
       \<and> getTotalGain [custom 0 0 0 0 0] 1000 = NegInf"
proof -
  have a: "magnitude flt fr = Num 0 \<longrightarrow> getFilterGain flt fr = NegInf"
    using assms by (simp add: getFilterGain_def Let_def jeq_def)
  have b: "magnitude flt fr \<noteq> Num 0 \<longrightarrow>
            getFilterGain flt fr = jmul (Num 20) (jlog 10 (magnitude flt fr))"
    using assms by (simp add: getFilterGain_def Let_def jeq_def)
  have c: "numMag flt fr \<noteq> 0 \<and> denMag flt fr \<noteq> 0 \<longrightarrow>
            getFilterGain flt fr = Num (20 * log 10 (numMag flt fr / denMag flt fr))"
    using assms by (simp add: custom_gain_cases)
  have d: "numMag flt fr = 0 \<and> denMag flt fr \<noteq> 0 \<longrightarrow> getFilterGain flt fr = NegInf"
    using assms by (simp add: custom_gain_cases)
  have e: "getFilterGain (custom 0 0 0 0 0) 1000 = NegInf"
    using custom_gain_cases [of "custom 0 0 0 0 0" 1000] zero_numerator_mags [of 1000]
    by (simp add: custom_def)
  then have f: "getTotalGain [custom 0 0 0 0 0] 1000 = NegInf"
    by (simp add: getTotalGain_def)
  have g: "(magnitude flt fr = Num 0) = (numMag flt fr = 0 \<and> denMag flt fr \<noteq> 0)"
    by (rule magnitude_zero_iff)
  have h: "magnitude flt fr = jdiv (Num (numMag flt fr)) (Num (denMag flt fr))"
    by (rule magnitude_quotient)
  from a b c d e f g h show ?thesis
    by blast
qed

theorem custom_gain_witness:
  "getFilterGain (custom 1 0 0 0 0) 1000 = Num 0
   \<and> magnitude (custom 0 0 0 0 0) 20 = Num 0
   \<and> getFilterGain (custom 0 0 0 0 0) 20 = NegInf"
proof -
  have t: "ftype (custom 1 0 0 0 0) = Custom" "ftype (custom 0 0 0 0 0) = Custom"
    by (simp_all add: custom_def)
  have z: "magnitude (custom 0 0 0 0 0) 20 = Num 0"
    using zero_numerator_mags [of 20] by (simp add: magnitude_quotient)
  show ?thesis
    using custom_gain [OF t(1), of 1000] custom_gain [OF t(2), of 20] z
      identity_mags [of 1000] zero_numerator_mags [of 20]
    by simp
qed

section \<open>Drag handlers\<close>

lemma xScale_invert_pos: "0 < xScale_invert w x"
  by (simp add: xScale_invert_def)

lemma xScale_invert_closed_form:
  assumes "w \<noteq> 0"
  shows "xScale_invert w x = 10 * 2000 powr (x / w)"
proof -
  have l: "ln (20000::real) = ln 10 + ln 2000"
    using ln_mult_pos [of 10 2000] by simp
  have "bimap 0 w (ln 10) (ln 20000) x = ln 10 + (x / w) * ln 2000"
  proof (cases "w < 0")
    case True
    then have "(x - w) / (0 - w) = 1 - x / w"
      by (simp add: field_simps)
    with True show ?thesis
      by (simp add: bimap_def normalize_def interpolateNumber_def l algebra_simps)
  next
    case False
    with assms show ?thesis
      by (simp add: bimap_def normalize_def interpolateNumber_def l algebra_simps)
  qed
  then show ?thesis
    by (simp add: xScale_invert_def exp_add powr_def mult.commute)
qed

lemma yScale_invert_closed_form: "yScale_invert y = 25 - 50 * y / 310"
  by (simp add: yScale_invert_def bimap_def normalize_def interpolateNumber_def innerHeight_def
      field_simps)

lemma symmetry_floor: "0 < max 1.001 t - (1::real)"
proof -
  have "(1.001::real) \<le> max 1.001 t" by (rule max.cobounded1)
  then show ?thesis by simp
qed

lemma qDrag_q_right:
  assumes "hz sf \<noteq> 0"
  shows "qDrag_symmetryFactor 1 hf sf = Num (max 1.001 (hf / hz sf))
       \<and> qDrag_q 1 hf sf = Num (max 0.1 (min 20 (1 / (max 1.001 (hf / hz sf) - 1))))"
proof -
  have s: "qDrag_symmetryFactor 1 hf sf = Num (max 1.001 (hf / hz sf))"
    using assms by (simp add: qDrag_symmetryFactor_def jmax_Num)
  have "max 1.001 (hf / hz sf) - 1 \<noteq> 0"
    using symmetry_floor [of "hf / hz sf"] by simp
  then show ?thesis
    using s by (simp add: qDrag_q_def Let_def jsub_def jmax_Num jmin_Num)
qed

lemma qDrag_q_left:
  assumes "d \<noteq> 1" and "0 < hf"
  shows "qDrag_symmetryFactor d hf sf = Num (max 1.001 (hz sf / hf))
       \<and> qDrag_q d hf sf = Num (max 0.1 (min 20 (1 / (max 1.001 (hz sf / hf) - 1))))"
proof -
  have s: "qDrag_symmetryFactor d hf sf = Num (max 1.001 (hz sf / hf))"
    using assms by (simp add: qDrag_symmetryFactor_def jmax_Num)
  have "max 1.001 (hz sf / hf) - 1 \<noteq> 0"
    using symmetry_floor [of "hz sf / hf"] by simp
  then show ?thesis
    using s by (simp add: qDrag_q_def Let_def jsub_def jmax_Num jmin_Num)
qed

lemma qDrag_q_finite:
  assumes "0 < hf"
  shows "\<exists>v. qDrag_q d hf sf = Num v \<and> 0.1 \<le> v \<and> v \<le> 20"
proof (cases "d = 1")
  case False
  then show ?thesis
    using qDrag_q_left [of d hf sf] assms by simp
next
  case True
  show ?thesis
  proof (cases "hz sf = 0")
    case True
    with \<open>d = 1\<close> assms have "qDrag_q d hf sf = Num 0.1"
      by (simp add: qDrag_q_def qDrag_symmetryFactor_def Let_def jsub_def jmax_def jmin_def
          signed_inf_def)
    then show ?thesis by (intro exI [of _ "0.1"]) simp
  next
    case False
    have "max 1.001 (hf / hz sf) - 1 \<noteq> 0"
      using symmetry_floor [of "hf / hz sf"] by simp
    with False \<open>d = 1\<close> show ?thesis
      by (simp add: qDrag_q_def qDrag_symmetryFactor_def Let_def jsub_def jmax_Num jmin_Num)
  qed
qed

lemma find_update_selected:
  assumes "find (\<lambda>f. fid f = i) fs = Some sf" and "fid (g sf) = i"
  shows "find (\<lambda>f. fid f = i) (update_selected i g fs) = Some (g sf)"
  using assms by (induction fs) (auto split: if_splits)

lemma update_selected_others:
  assumes "\<And>f. fid (g f) = fid f"
  shows "[f \<leftarrow> update_selected i g fs. fid f \<noteq> i] = [f \<leftarrow> fs. fid f \<noteq> i]"
  using assms by (induction fs) auto

lemma update_selected_map:
  assumes "\<And>f. h (g f) = h f"
  shows "map h (update_selected i g fs) = map h fs"
  using assms by (induction fs) auto

lemma length_update_selected: "length (update_selected i g fs) = length fs"
  by (induction fs) auto

lemma find_fid: "find (\<lambda>f. fid f = i) fs = Some sf \<Longrightarrow> fid sf = i"
  by (induction fs) (auto split: if_splits)

lemma draggable_selected:
  "draggable st = Some sf \<Longrightarrow> selectedFilter st = Some sf \<and> ftype sf \<noteq> Custom \<and> fid sf = selectedId st"
  by (auto simp: draggable_def selectedFilter_def split: option.splits if_splits dest: find_fid)

lemma throttledFiltersUpdate_internal [simp]:
  "internalFilters (throttledFiltersUpdate v st) = internalFilters st"
  "selectedId (throttledFiltersUpdate v st) = selectedId st"
  "innerWidth (throttledFiltersUpdate v st) = innerWidth st"
  "totalCurve (throttledFiltersUpdate v st) = totalCurve st"
  "selectedArea (throttledFiltersUpdate v st) = selectedArea st"
  "clock (throttledFiltersUpdate v st) = clock st"
  "isDragging (throttledFiltersUpdate v st) = isDragging st"
  by (simp_all add: throttledFiltersUpdate_def throttle_def)

lemma updateCurves_fields [simp]:
  "internalFilters (updateCurves st) = internalFilters st"
  "selectedId (updateCurves st) = selectedId st"
  "innerWidth (updateCurves st) = innerWidth st"
  "filters (updateCurves st) = filters st"
  "thr (updateCurves st) = thr st"
  "clock (updateCurves st) = clock st"
  "isDragging (updateCurves st) = isDragging st"
  by (simp_all add: updateCurves_def)

lemma handleDrag_drag_internal:
  assumes "draggable st = Some sf"
  shows "internalFilters (handleDrag_drag x y st) =
           update_selected (selectedId st) (handleDrag_update (innerWidth st) x y) (internalFilters st)"
    and "selectedId (handleDrag_drag x y st) = selectedId st"
    and "innerWidth (handleDrag_drag x y st) = innerWidth st"
  using assms by (simp_all add: handleDrag_drag_def Let_def)

lemma qDrag_drag_internal:
  assumes "draggable st = Some sf"
  shows "internalFilters (qDrag_drag d x st) =
           update_selected (selectedId st) (qDrag_update (innerWidth st) d x) (internalFilters st)"
    and "selectedId (qDrag_drag d x st) = selectedId st"
    and "innerWidth (qDrag_drag d x st) = innerWidth st"
  using assms by (simp_all add: qDrag_drag_def Let_def)

lemma handleDrag_update_eq:
  "handleDrag_update w x y sf =
     sf\<lparr>hz := max 20 (min 20000 (xScale_invert w x)),
        db := (if ftype sf = Peaking then max (-25) (min 25 (yScale_invert y))
               else max (-25) (min 25 (yScale_invert y * 2)))\<rparr>"
  by (simp add: handleDrag_update_def Let_def)

lemma qDrag_update_eq:
  "\<exists>v. qDrag_q d (xScale_invert w (x + 12)) sf = Num v \<and> 0.1 \<le> v \<and> v \<le> 20
       \<and> qDrag_update w d x sf = sf\<lparr>q := v\<rparr>"
proof -
  obtain v where "qDrag_q d (xScale_invert w (x + 12)) sf = Num v" "0.1 \<le> v" "v \<le> 20"
    using qDrag_q_finite [OF xScale_invert_pos] by blast
  then show ?thesis
    by (simp add: qDrag_update_def Let_def)
qed

lemma qDrag_update_frame:
  "fid (qDrag_update w d x f) = fid f" "ftype (qDrag_update w d x f) = ftype f"
  "hz (qDrag_update w d x f) = hz f" "db (qDrag_update w d x f) = db f"
  "(qDrag_update w d x f)\<lparr>q := c\<rparr> = f\<lparr>q := c\<rparr>"
  using qDrag_update_eq [of d w x f] by auto

text \<open>
  C4. A drag of the main handle of a selected filter that is not custom, at the screen
  position \<open>(x, y)\<close>, sets \<open>hz\<close> to the inverted x clamped to \<open>[20, 20000]\<close> and sets
  \<open>db\<close> to the inverted y clamped to \<open>[-25, 25]\<close> for a peaking filter, and to twice the
  inverted y clamped to \<open>[-25, 25]\<close> otherwise. Nothing else changes: the selected filter
  keeps every other field, and every other filter of the list is as before.
\<close>

theorem main_handle_drag:
  assumes "draggable st = Some sf"
  shows "selectedFilter (handleDrag_drag x y st) =
           Some (sf\<lparr>hz := max 20 (min 20000 (xScale_invert (innerWidth st) x)),
                    db := (if ftype sf = Peaking then max (-25) (min 25 (yScale_invert y))
                           else max (-25) (min 25 (yScale_invert y * 2)))\<rparr>)
       \<and> [f \<leftarrow> internalFilters (handleDrag_drag x y st). fid f \<noteq> selectedId st] =
           [f \<leftarrow> internalFilters st. fid f \<noteq> selectedId st]
       \<and> length (internalFilters (handleDrag_drag x y st)) = length (internalFilters st)
       \<and> map q (internalFilters (handleDrag_drag x y st)) = map q (internalFilters st)
       \<and> map (\<lambda>f. f\<lparr>hz := 0, db := 0\<rparr>) (internalFilters (handleDrag_drag x y st)) =
           map (\<lambda>f. f\<lparr>hz := 0, db := 0\<rparr>) (internalFilters st)"
proof -
  let ?g = "handleDrag_update (innerWidth st) x y"
  have sel: "find (\<lambda>f. fid f = selectedId st) (internalFilters st) = Some sf"
    using draggable_selected [OF assms] by (simp add: selectedFilter_def)
  have idg: "\<And>f. fid (?g f) = fid f"
    by (simp add: handleDrag_update_eq)
  have "fid (?g sf) = selectedId st"
    using draggable_selected [OF assms] idg by simp
  then have "selectedFilter (handleDrag_drag x y st) = Some (?g sf)"
    using find_update_selected [OF sel, of ?g]
    by (simp add: selectedFilter_def handleDrag_drag_internal [OF assms])
  moreover have "map q (update_selected (selectedId st) ?g (internalFilters st))
                   = map q (internalFilters st)"
    by (rule update_selected_map) (simp add: handleDrag_update_eq)
  moreover have "map (\<lambda>f. f\<lparr>hz := 0, db := 0\<rparr>) (update_selected (selectedId st) ?g (internalFilters st))
                   = map (\<lambda>f. f\<lparr>hz := 0, db := 0\<rparr>) (internalFilters st)"
    by (rule update_selected_map) (simp add: handleDrag_update_eq)
  ultimately show ?thesis
    using update_selected_others [of ?g "selectedId st" "internalFilters st", OF idg]
    by (simp add: handleDrag_drag_internal [OF assms] length_update_selected
        handleDrag_update_eq)
qed

lemma dragState_draggable: "draggable dragState = Some scenarioA"
  by (simp add: draggable_def selectedFilter_def dragState_def scenarioA_def)

lemma xScale_invert_zero: "xScale_invert 700 0 = 10"
  by (simp add: xScale_invert_def bimap_def normalize_def interpolateNumber_def)

theorem main_handle_drag_witness:
  "selectedFilter (handleDrag_drag 0 155 dragState) = Some (scenarioA\<lparr>hz := 20, db := 0\<rparr>)
   \<and> selectedFilter (handleDrag_drag 0 0 (dragState\<lparr>selectedId := 2\<rparr>))
        = Some ((lowShelf 100 6 0.707)\<lparr>hz := 20, db := 25\<rparr>)"
proof -
  have d2: "draggable (dragState\<lparr>selectedId := 2\<rparr>) = Some (lowShelf 100 6 0.707)"
    by (simp add: draggable_def selectedFilter_def dragState_def scenarioA_def lowShelf_def)
  have y: "yScale_invert 155 = 0" "yScale_invert 0 = 25"
    by (simp_all add: yScale_invert_closed_form)
  have w: "innerWidth dragState = 700"
    by (simp add: dragState_def)
  show ?thesis
    using main_handle_drag [OF dragState_draggable, of 0 155] main_handle_drag [OF d2, of 0 0]
    by (simp add: y w xScale_invert_zero scenarioA_def lowShelf_def)
qed

text \<open>
  C9. A drag of a Q handle changes only \<open>q\<close> of the selected filter: \<open>hz\<close> and \<open>db\<close> of
  every filter are as before, as is every field other than \<open>q\<close>, and the filters that
  are not selected are as before.
\<close>

theorem q_drag_frame:
  assumes "draggable st = Some sf"
  shows "(\<exists>v. selectedFilter (qDrag_drag d x st) = Some (sf\<lparr>q := v\<rparr>))
       \<and> map hz (internalFilters (qDrag_drag d x st)) = map hz (internalFilters st)
       \<and> map db (internalFilters (qDrag_drag d x st)) = map db (internalFilters st)
       \<and> map (\<lambda>f. f\<lparr>q := 0\<rparr>) (internalFilters (qDrag_drag d x st)) =
           map (\<lambda>f. f\<lparr>q := 0\<rparr>) (internalFilters st)
       \<and> [f \<leftarrow> internalFilters (qDrag_drag d x st). fid f \<noteq> selectedId st] =
           [f \<leftarrow> internalFilters st. fid f \<noteq> selectedId st]"
proof -
  let ?g = "qDrag_update (innerWidth st) d x"
  let ?fs = "update_selected (selectedId st) ?g (internalFilters st)"
  have sel: "find (\<lambda>f. fid f = selectedId st) (internalFilters st) = Some sf"
    using draggable_selected [OF assms] by (simp add: selectedFilter_def)
  have "fid (?g sf) = selectedId st"
    using draggable_selected [OF assms] by (simp add: qDrag_update_frame)
  then have "selectedFilter (qDrag_drag d x st) = Some (?g sf)"
    using find_update_selected [OF sel, of ?g]
    by (simp add: selectedFilter_def qDrag_drag_internal [OF assms])
  then have a: "\<exists>v. selectedFilter (qDrag_drag d x st) = Some (sf\<lparr>q := v\<rparr>)"
    using qDrag_update_eq [of d "innerWidth st" x sf] by auto
  have b: "map hz ?fs = map hz (internalFilters st)"
    by (rule update_selected_map) (simp add: qDrag_update_frame)
  have c: "map db ?fs = map db (internalFilters st)"
    by (rule update_selected_map) (simp add: qDrag_update_frame)
  have e: "map (\<lambda>f. f\<lparr>q := 0\<rparr>) ?fs = map (\<lambda>f. f\<lparr>q := 0\<rparr>) (internalFilters st)"
    by (rule update_selected_map) (simp add: qDrag_update_frame)
  have f: "[f \<leftarrow> ?fs. fid f \<noteq> selectedId st] = [f \<leftarrow> internalFilters st. fid f \<noteq> selectedId st]"
    by (rule update_selected_others) (simp add: qDrag_update_frame)
  from a b c e f show ?thesis
    by (simp only: qDrag_drag_internal [OF assms] simp_thms)
qed

theorem q_drag_frame_witness:
  "map hz (internalFilters (qDrag_drag 1 688 dragState)) = [1000, 100]
   \<and> map db (internalFilters (qDrag_drag 1 688 dragState)) = [6, 6]"
  using q_drag_frame [OF dragState_draggable, of 1 688]
  by (simp add: dragState_def scenarioA_def lowShelf_def)

text \<open>
  C5. In a Q-handle drag with handle frequency \<open>handleFreq\<close> the symmetry factor is
  \<open>max(1.001, handleFreq / hz)\<close> for the right handle and \<open>max(1.001, hz / handleFreq)\<close>
  for the left one, and the new \<open>q\<close> is \<open>1 / (symmetryFactor - 1)\<close> clamped to
  \<open>[0.1, 20]\<close>; the handler stores this value for the frequency that the scale inverts
  from the middle of the dragged hit area. For \<open>{hz: 1000, q: 2}\<close> the handles are drawn
  at 666.67 Hz and 1500 Hz, and the right handle at 2000 Hz gives the factor 2 and \<open>q = 1\<close>.
\<close>

theorem q_drag_inverse:
  "(hz sf \<noteq> 0 \<longrightarrow>
      qDrag_symmetryFactor 1 handleFreq sf = Num (max 1.001 (handleFreq / hz sf))
    \<and> qDrag_q 1 handleFreq sf =
        Num (max 0.1 (min 20 (1 / (max 1.001 (handleFreq / hz sf) - 1)))))
   \<and> (0 < handleFreq \<longrightarrow>
      qDrag_symmetryFactor 0 handleFreq sf = Num (max 1.001 (hz sf / handleFreq))
    \<and> qDrag_q 0 handleFreq sf =
        Num (max 0.1 (min 20 (1 / (max 1.001 (hz sf / handleFreq) - 1)))))
   \<and> (draggable st = Some sf \<longrightarrow>
        (\<exists>v. qDrag_q d (xScale_invert (innerWidth st) (x + 12)) sf = Num v
           \<and> selectedFilter (qDrag_drag d x st) = Some (sf\<lparr>q := v\<rparr>)))
   \<and> qPositions scenarioC = (Num (1000 / 1.5), Num 1500)
   \<and> \<bar>1000 / 1.5 - 666.67\<bar> \<le> (0.005::real)
   \<and> qDrag_symmetryFactor 1 2000 scenarioC = Num 2
   \<and> qDrag_q 1 2000 scenarioC = Num 1"
proof -
  have a: "hz sf \<noteq> 0 \<longrightarrow>
      qDrag_symmetryFactor 1 handleFreq sf = Num (max 1.001 (handleFreq / hz sf))
    \<and> qDrag_q 1 handleFreq sf =
        Num (max 0.1 (min 20 (1 / (max 1.001 (handleFreq / hz sf) - 1))))"
    using qDrag_q_right [of sf handleFreq] by blast
  have b: "0 < handleFreq \<longrightarrow>
      qDrag_symmetryFactor 0 handleFreq sf = Num (max 1.001 (hz sf / handleFreq))
    \<and> qDrag_q 0 handleFreq sf =
        Num (max 0.1 (min 20 (1 / (max 1.001 (hz sf / handleFreq) - 1))))"
    using qDrag_q_left [of 0 handleFreq sf] by simp
  have c: "draggable st = Some sf \<longrightarrow>
        (\<exists>v. qDrag_q d (xScale_invert (innerWidth st) (x + 12)) sf = Num v
           \<and> selectedFilter (qDrag_drag d x st) = Some (sf\<lparr>q := v\<rparr>))"
  proof
    assume dr: "draggable st = Some sf"
    let ?g = "qDrag_update (innerWidth st) d x"
    have sel: "find (\<lambda>f. fid f = selectedId st) (internalFilters st) = Some sf"
      using draggable_selected [OF dr] by (simp add: selectedFilter_def)
    have "fid (?g sf) = selectedId st"
      using draggable_selected [OF dr] by (simp add: qDrag_update_frame)
    then have "selectedFilter (qDrag_drag d x st) = Some (?g sf)"
      using find_update_selected [OF sel, of ?g]
      by (simp add: selectedFilter_def qDrag_drag_internal [OF dr])
    then show "\<exists>v. qDrag_q d (xScale_invert (innerWidth st) (x + 12)) sf = Num v
           \<and> selectedFilter (qDrag_drag d x st) = Some (sf\<lparr>q := v\<rparr>)"
      using qDrag_update_eq [of d "innerWidth st" x sf] by auto
  qed
  have e: "qPositions scenarioC = (Num (1000 / 1.5), Num 1500)"
    by (simp add: qPositions_def scenarioC_def Let_def)
  have f: "\<bar>1000 / 1.5 - 666.67\<bar> \<le> (0.005::real)"
    by simp
  have g: "qDrag_symmetryFactor 1 2000 scenarioC = Num 2 \<and> qDrag_q 1 2000 scenarioC = Num 1"
    using qDrag_q_right [of scenarioC 2000] by (simp add: scenarioC_def)
  from a b c e f g show ?thesis by blast
qed


lemma xScale_invert_full: "xScale_invert 700 700 = 20000"
  by (simp add: xScale_invert_def bimap_def normalize_def interpolateNumber_def)

theorem q_drag_inverse_witness:
  "qDrag_q 1 3000 scenarioC = Num (1 / 2)
   \<and> qDrag_q 0 200 scenarioC = Num (1 / 4)
   \<and> qDrag_q 1 900 scenarioC = Num 20
   \<and> selectedFilter (qDrag_drag 1 688 dragState) = Some (scenarioA\<lparr>q := 0.1\<rparr>)"
proof -
  have x: "xScale_invert (innerWidth dragState) (688 + 12) = 20000"
    using xScale_invert_full by (simp add: dragState_def)
  have "\<exists>v. qDrag_q 1 20000 scenarioA = Num v
          \<and> selectedFilter (qDrag_drag 1 688 dragState) = Some (scenarioA\<lparr>q := v\<rparr>)"
    using q_drag_inverse [of scenarioA 20000 dragState 1 688] dragState_draggable x
    by simp
  moreover have "qDrag_q 1 20000 scenarioA = Num 0.1"
    using q_drag_inverse [of scenarioA 20000] by (simp add: scenarioA_def)
  ultimately have "selectedFilter (qDrag_drag 1 688 dragState) = Some (scenarioA\<lparr>q := 0.1\<rparr>)"
    by auto
  then show ?thesis
    using q_drag_inverse [of scenarioC 3000] q_drag_inverse [of scenarioC 200]
      q_drag_inverse [of scenarioC 900]
    by (simp add: scenarioC_def)
qed

lemma round_trip_factor:
  assumes "0.1 \<le> qv" and "qv \<le> (20::real)"
  shows "max 1.001 (1 + 1 / qv) = 1 + 1 / qv"
proof -
  have "0 < qv" using assms by simp
  then have "1 / 20 \<le> 1 / qv"
    using assms by (simp add: field_simps)
  then show ?thesis by simp
qed

lemma qDrag_q_hz_only:
  assumes "hz sf' = hz sf"
  shows "qDrag_q d handleFreq sf' = qDrag_q d handleFreq sf"
  using assms by (simp add: qDrag_q_def qDrag_symmetryFactor_def)

text \<open>
  C1. For a filter with \<open>q\<close> in \<open>[0.1, 20]\<close> and \<open>hz\<close> in \<open>[20, 20000]\<close>, the two Q handles
  are drawn at \<open>hz / (1 + 1/q)\<close> and \<open>hz * (1 + 1/q)\<close>. The inverse mapping of the Q
  drag, given exactly these frequencies and the centre frequency, gives back \<open>q\<close> within
  \<open>10\<^sup>-\<^sup>6\<close>, for the left handle and for the right one, whatever \<open>q\<close> the dragged
  filter \<open>sf'\<close> holds at that moment; on exact numbers it gives back \<open>q\<close> itself, and
  that is the value the drag handler stores when the scale inverts the dragged position
  to the handle frequency.
\<close>

theorem q_round_trip:
  assumes "0.1 \<le> q sf" and "q sf \<le> 20" and "20 \<le> hz sf" and "hz sf \<le> 20000"
    and "hz sf' = hz sf"
  shows "qPositions sf = (Num (hz sf / (1 + 1 / q sf)), Num (hz sf * (1 + 1 / q sf)))
       \<and> within_tolerance (1 / 10 ^ 6) (qDrag_q 0 (hz sf / (1 + 1 / q sf)) sf') (q sf)
       \<and> within_tolerance (1 / 10 ^ 6) (qDrag_q 1 (hz sf * (1 + 1 / q sf)) sf') (q sf)
       \<and> qDrag_q 0 (hz sf / (1 + 1 / q sf)) sf' = Num (q sf)
       \<and> qDrag_q 1 (hz sf * (1 + 1 / q sf)) sf' = Num (q sf)
       \<and> (xScale_invert w (x + 12) = hz sf / (1 + 1 / q sf) \<longrightarrow>
            qDrag_update w 0 x sf' = sf'\<lparr>q := q sf\<rparr>)
       \<and> (xScale_invert w (x + 12) = hz sf * (1 + 1 / q sf) \<longrightarrow>
            qDrag_update w 1 x sf' = sf'\<lparr>q := q sf\<rparr>)"
proof -
  let ?s = "1 + 1 / q sf"
  have qpos: "0 < q sf" and hpos: "0 < hz sf"
    using assms by simp_all
  have spos: "0 < ?s"
    using qpos by (simp add: add_pos_pos)
  have pos: "qPositions sf = (Num (hz sf / ?s), Num (hz sf * ?s))"
    using qpos spos by (simp add: qPositions_def Let_def)
  have lpos: "0 < hz sf / ?s"
    using hpos spos by simp
  have fl: "hz sf / (hz sf / ?s) = ?s"
    using hpos spos by simp
  have fr: "hz sf * ?s / hz sf = ?s"
    using hpos by simp
  have inv: "1 / (?s - 1) = q sf"
    using qpos by simp
  have cl: "max 0.1 (min 20 (q sf)) = q sf"
    using assms by simp
  have d0: "(0::nat) \<noteq> 1" by simp
  have h0: "hz sf' \<noteq> 0" using hpos assms(5) by simp
  have "qDrag_q 0 (hz sf / ?s) sf'
          = Num (max 0.1 (min 20 (1 / (max 1.001 (hz sf' / (hz sf / ?s)) - 1))))"
    by (rule conjunct2 [OF qDrag_q_left [OF d0 lpos]])
  also have "\<dots> = Num (q sf)"
    by (simp only: assms(5) fl round_trip_factor [OF assms(1,2)] inv cl)
  finally have left: "qDrag_q 0 (hz sf / ?s) sf' = Num (q sf)" .
  have "qDrag_q 1 (hz sf * ?s) sf'
          = Num (max 0.1 (min 20 (1 / (max 1.001 (hz sf * ?s / hz sf') - 1))))"
    by (rule conjunct2 [OF qDrag_q_right [OF h0]])
  also have "\<dots> = Num (q sf)"
    by (simp only: assms(5) fr round_trip_factor [OF assms(1,2)] inv cl)
  finally have right: "qDrag_q 1 (hz sf * ?s) sf' = Num (q sf)" .
  have ul: "xScale_invert w (x + 12) = hz sf / ?s \<longrightarrow>
            qDrag_update w 0 x sf' = sf'\<lparr>q := q sf\<rparr>"
    using left by (simp add: qDrag_update_def Let_def)
  have ur: "xScale_invert w (x + 12) = hz sf * ?s \<longrightarrow>
            qDrag_update w 1 x sf' = sf'\<lparr>q := q sf\<rparr>"
    using right by (simp add: qDrag_update_def Let_def)
  from pos left right ul ur show ?thesis by simp
qed

theorem q_round_trip_witness:
  "qPositions scenarioC = (Num (2000 / 3), Num 1500)
   \<and> qDrag_q 0 (2000 / 3) (scenarioC\<lparr>q := 5\<rparr>) = Num 2
   \<and> qDrag_q 1 1500 (scenarioC\<lparr>q := 5\<rparr>) = Num 2
   \<and> qPositions (scenarioC\<lparr>hz := 10000, q := 1\<rparr>) = (Num 5000, Num 20000)
   \<and> qDrag_update 700 1 688 (scenarioC\<lparr>hz := 10000, q := 5\<rparr>)
       = scenarioC\<lparr>hz := 10000, q := 1\<rparr>
   \<and> qPositions (scenarioC\<lparr>hz := 20, q := 1\<rparr>) = (Num 10, Num 40)
   \<and> qDrag_update 700 0 (- 12) (scenarioC\<lparr>hz := 20, q := 5\<rparr>)
       = scenarioC\<lparr>hz := 20, q := 1\<rparr>"
proof -
  have x: "xScale_invert 700 (688 + 12) = 20000" "xScale_invert 700 (- 12 + 12) = 10"
    using xScale_invert_full xScale_invert_zero by simp_all
  show ?thesis
    using q_round_trip [of scenarioC "scenarioC\<lparr>q := 5\<rparr>"]
      q_round_trip [of "scenarioC\<lparr>hz := 10000, q := 1\<rparr>" "scenarioC\<lparr>hz := 10000, q := 5\<rparr>"
        700 688]
      q_round_trip [of "scenarioC\<lparr>hz := 20, q := 1\<rparr>" "scenarioC\<lparr>hz := 20, q := 5\<rparr>"
        700 "- 12"] x
    by (simp add: scenarioC_def)
qed

text \<open>
  The tolerance leaves room for rounding: a handle frequency that is off by up to one part
  in \<open>10\<^sup>9\<close> still gives back \<open>q\<close> within \<open>10\<^sup>-\<^sup>6\<close>.
\<close>

lemma clamp_nonexpansive:
  fixes n qv lo hi :: real
  assumes "lo \<le> qv" and "qv \<le> hi"
  shows "\<bar>max lo (min hi n) - qv\<bar> \<le> \<bar>n - qv\<bar>"
  using assms by (simp add: max_def min_def abs_if)

lemma inverse_stable:
  fixes qv t :: real
  assumes "0.1 \<le> qv" and "qv \<le> 20"
    and "\<bar>t - (1 + 1 / qv)\<bar> \<le> (1 + 1 / qv) * 2 / 10 ^ 9"
  shows "max 1.001 t = t"
    and "\<bar>max 0.1 (min 20 (1 / (t - 1))) - qv\<bar> \<le> 1 / 10 ^ 6"
proof -
  define k where "k = qv * (t - (1 + 1 / qv))"
  have qpos: "0 < qv" using assms(1) by simp
  have qs: "qv * (1 + 1 / qv) = qv + 1"
    using qpos by (simp add: field_simps)
  have "\<bar>k\<bar> = qv * \<bar>t - (1 + 1 / qv)\<bar>"
    using qpos by (simp add: k_def abs_mult)
  also have "\<dots> \<le> qv * ((1 + 1 / qv) * 2 / 10 ^ 9)"
    using assms(3) qpos by (simp only: mult_le_cancel_left_pos)
  also have "\<dots> = (qv * (1 + 1 / qv)) * 2 / 10 ^ 9"
    by simp
  also have "\<dots> = (qv + 1) * 2 / 10 ^ 9"
    by (simp only: qs)
  also have "\<dots> \<le> 42 / 10 ^ 9"
    using assms(2) by simp
  finally have kb: "\<bar>k\<bar> \<le> 42 / 10 ^ 9" .
  have td: "qv * (t - 1) = 1 + k"
    using qpos by (simp add: k_def field_simps)
  have kpos: "0 < 1 + k" and k9: "9 / 10 \<le> 1 + k"
    using kb by (simp_all add: abs_le_iff)
  have tpos: "0 < t - 1"
    using td kpos qpos by (metis zero_less_mult_pos)
  have r: "1 / 20 \<le> 1 / qv"
    using qpos assms(2) by (simp add: field_simps)
  have "t - 1 = (1 + k) * (1 / qv)"
    using td qpos by (simp add: field_simps)
  moreover have "(9 / 10) * (1 / 20) \<le> (1 + k) * (1 / qv)"
    using k9 r kpos by (intro mult_mono) simp_all
  ultimately have "(9 / 10) * (1 / 20) \<le> t - 1"
    by simp
  then show "max 1.001 t = t"
    by simp
  have "t - 1 = (1 + k) / qv"
    using td qpos by (simp add: field_simps)
  then have inv: "1 / (t - 1) = qv / (1 + k)"
    by simp
  have "1 / (t - 1) - qv = - (qv * k) / (1 + k)"
    using kpos by (simp add: inv field_simps)
  then have "\<bar>1 / (t - 1) - qv\<bar> = qv * \<bar>k\<bar> / (1 + k)"
    using kpos qpos by (simp add: abs_mult)
  also have "\<dots> \<le> 20 * (42 / 10 ^ 9) / (9 / 10)"
    using kb k9 assms(2) qpos kpos by (intro frac_le mult_mono) simp_all
  also have "\<dots> \<le> 1 / 10 ^ 6"
    by simp
  finally have "\<bar>1 / (t - 1) - qv\<bar> \<le> 1 / 10 ^ 6" .
  then show "\<bar>max 0.1 (min 20 (1 / (t - 1))) - qv\<bar> \<le> 1 / 10 ^ 6"
    using clamp_nonexpansive [of "0.1" qv 20 "1 / (t - 1)"] assms(1,2) by simp
qed


lemma q_round_trip_stable_right:
  fixes sf sf' :: eq_filter
  assumes "0.1 \<le> q sf" and "q sf \<le> 20" and "20 \<le> hz sf" and "hz sf \<le> 20000"
    and "\<bar>r - hz sf * (1 + 1 / q sf)\<bar> \<le> hz sf * (1 + 1 / q sf) / 10 ^ 9"
    and "hz sf' = hz sf"
  shows "within_tolerance (1 / 10 ^ 6) (qDrag_q 1 r sf') (q sf)"
proof -
  let ?s = "1 + 1 / q sf"
  have hpos: "0 < hz sf" and qpos: "0 < q sf"
    using assms by simp_all
  have spos: "0 < ?s"
    using qpos by (simp add: add_pos_pos)
  have "r / hz sf - ?s = (r - hz sf * ?s) / hz sf"
    using hpos by (simp add: field_simps)
  then have "\<bar>r / hz sf - ?s\<bar> = \<bar>r - hz sf * ?s\<bar> / hz sf"
    using hpos by (simp add: abs_divide)
  also have "\<dots> \<le> (hz sf * ?s / 10 ^ 9) / hz sf"
    using assms(5) hpos by (simp only: divide_right_mono less_imp_le)
  also have "\<dots> = ?s / 10 ^ 9"
    using hpos by simp
  also have "\<dots> \<le> ?s * 2 / 10 ^ 9"
    using spos by simp
  finally have t: "\<bar>r / hz sf - ?s\<bar> \<le> ?s * 2 / 10 ^ 9" .
  have h0: "hz sf \<noteq> 0" using hpos by simp
  have "qDrag_q 1 r sf = Num (max 0.1 (min 20 (1 / (max 1.001 (r / hz sf) - 1))))"
    by (rule conjunct2 [OF qDrag_q_right [OF h0]])
  then show ?thesis
    using inverse_stable [OF assms(1,2) t] by (simp add: qDrag_q_hz_only [OF assms(6)])
qed

lemma q_round_trip_stable_left:
  fixes sf sf' :: eq_filter
  assumes "0.1 \<le> q sf" and "q sf \<le> 20" and "20 \<le> hz sf" and "hz sf \<le> 20000"
    and "\<bar>l - hz sf / (1 + 1 / q sf)\<bar> \<le> hz sf / (1 + 1 / q sf) / 10 ^ 9"
    and "hz sf' = hz sf"
  shows "within_tolerance (1 / 10 ^ 6) (qDrag_q 0 l sf') (q sf)"
proof -
  define s where "s = 1 + 1 / q sf"
  define p where "p = hz sf / s"
  have hpos: "0 < hz sf" and qpos: "0 < q sf"
    using assms by simp_all
  have spos: "0 < s"
    using qpos by (simp add: s_def add_pos_pos)
  have ppos: "0 < p"
    using hpos spos by (simp add: p_def)
  have near: "\<bar>l - p\<bar> \<le> p / 10 ^ 9"
    using assms(5) by (simp only: p_def s_def)
  have lb: "p / 2 \<le> l"
  proof -
    have "p - l \<le> p / 10 ^ 9"
      using near by (simp only: abs_le_iff minus_diff_eq)
    then have "p - p / 10 ^ 9 \<le> l"
      by linarith
    moreover have "p / 2 \<le> p - p / 10 ^ 9"
      using ppos by simp
    ultimately show ?thesis by linarith
  qed
  then have lpos: "0 < l"
    using ppos by linarith
  have hs: "hz sf = s * p"
    using spos by (simp add: p_def)
  have "hz sf / l - s = s * (p - l) / l"
    using lpos by (simp add: hs field_simps)
  then have "\<bar>hz sf / l - s\<bar> = s * \<bar>p - l\<bar> / l"
    using lpos spos by (simp add: abs_mult)
  also have "\<dots> \<le> s * (p / 10 ^ 9) / (p / 2)"
  proof (intro frac_le mult_left_mono)
    show "\<bar>p - l\<bar> \<le> p / 10 ^ 9"
      using near by (simp only: abs_minus_commute)
  qed (use spos ppos lb in simp_all)
  also have "\<dots> = s * 2 / 10 ^ 9"
    using ppos by simp
  finally have t: "\<bar>hz sf / l - (1 + 1 / q sf)\<bar> \<le> (1 + 1 / q sf) * 2 / 10 ^ 9"
    by (simp only: s_def)
  have d0: "(0::nat) \<noteq> 1" by simp
  have "qDrag_q 0 l sf = Num (max 0.1 (min 20 (1 / (max 1.001 (hz sf / l) - 1))))"
    by (rule conjunct2 [OF qDrag_q_left [OF d0 lpos]])
  then show ?thesis
    using inverse_stable [OF assms(1,2) t] by (simp add: qDrag_q_hz_only [OF assms(6)])
qed

section \<open>Sampling the curves\<close>

lemma d3_range_steps: "d3_range 0 w 2 = map (\<lambda>i. 2 * real i) [0 ..< nat \<lceil>w / 2\<rceil>]"
proof -
  have "nat (max 0 \<lceil>w / 2\<rceil>) = nat \<lceil>w / 2\<rceil>"
    by (simp add: max_def)
  then show ?thesis
    by (simp add: d3_range_def mult.commute)
qed

lemma d3_range_index:
  fixes i :: nat
  shows "i < nat \<lceil>w / 2\<rceil> \<longleftrightarrow> 2 * real i < w"
proof -
  have "i < nat \<lceil>w / 2\<rceil> \<longleftrightarrow> int i < \<lceil>w / 2\<rceil>"
    by linarith
  also have "\<dots> \<longleftrightarrow> real_of_int (int i) < w / 2"
    by (rule less_ceiling_iff)
  finally show ?thesis by (simp add: mult.commute)
qed

lemma d3_range_set: "set (d3_range 0 w 2) = {x. \<exists>i::nat. x = 2 * real i \<and> x < w}"
proof
  show "set (d3_range 0 w 2) \<subseteq> {x. \<exists>i::nat. x = 2 * real i \<and> x < w}"
  proof
    fix x assume "x \<in> set (d3_range 0 w 2)"
    then obtain i where i: "i < nat \<lceil>w / 2\<rceil>" "x = 2 * real i"
      by (auto simp: d3_range_steps)
    then have "x < w" using d3_range_index [of i w] by simp
    with i show "x \<in> {x. \<exists>i::nat. x = 2 * real i \<and> x < w}" by blast
  qed
  show "{x. \<exists>i::nat. x = 2 * real i \<and> x < w} \<subseteq> set (d3_range 0 w 2)"
  proof
    fix x assume "x \<in> {x. \<exists>i::nat. x = 2 * real i \<and> x < w}"
    then obtain i :: nat where i: "x = 2 * real i" "x < w" by blast
    then have "i < nat \<lceil>w / 2\<rceil>"
      using d3_range_index [of i w] by simp
    then have "i \<in> set [0 ..< nat \<lceil>w / 2\<rceil>]" by simp
    then have "2 * real i \<in> (\<lambda>i. 2 * real i) ` set [0 ..< nat \<lceil>w / 2\<rceil>]"
      by (rule imageI)
    with i show "x \<in> set (d3_range 0 w 2)"
      by (simp only: d3_range_steps set_map)
  qed
qed


lemma updateCurves_curves:
  "totalCurve (updateCurves st) = lineData (innerWidth st) (internalFilters st)"
  "selectedArea (updateCurves st) = map_option (selectedLineData (innerWidth st)) (selectedFilter st)"
  by (simp_all add: updateCurves_def split: option.splits)

lemma updateCurves_recomputed:
  "updateCurves (st\<lparr>totalCurve := c, selectedArea := a\<rparr>) = updateCurves st"
  by (simp add: updateCurves_def selectedFilter_def cong: option.case_cong)


lemma drag_redraws:
  assumes "draggable st = Some sf" and "is_drag e"
  shows "totalCurve (step st e) = lineData (innerWidth st) (internalFilters (step st e))
       \<and> selectedArea (step st e) =
           map_option (selectedLineData (innerWidth st)) (selectedFilter (step st e))"
proof (cases e)
  case (MainDrag x y)
  then show ?thesis
    using assms(1)
    by (simp add: handleDrag_drag_def Let_def updateCurves_curves selectedFilter_def)
next
  case (QDrag d x)
  then show ?thesis
    using assms(1)
    by (simp add: qDrag_drag_def Let_def updateCurves_curves selectedFilter_def)
qed (use assms(2) in simp_all)


lemma xScale_invert_ends:
  assumes "w \<noteq> 0"
  shows "xScale_invert w 0 = 10" and "xScale_invert w w = 20000"
  using assms by (simp_all add: xScale_invert_closed_form)

text \<open>
  C6. The sampled curve is the list of sample points at the pixel columns
  \<open>0, 2, 4, \<dots>\<close> below the width of the plot area, each with the frequency that the
  inverted log scale with the domain from 10 Hz to 20000 Hz gives for the column, and with
  the total gain at that frequency for the full curve or the gain of the selected filter
  for the highlight curve. \<open>updateCurves\<close> computes both from the current filters alone,
  whatever was drawn before, and every drag event redraws them.
\<close>

theorem sampled_curve:
  "lineData w fs =
     map (\<lambda>x. \<lparr>sfreq = xScale_invert w x, sdb = getTotalGain fs (xScale_invert w x)\<rparr>)
       (d3_range 0 w 2)
   \<and> selectedLineData w sf =
     map (\<lambda>x. \<lparr>sfreq = xScale_invert w x, sdb = getFilterGain sf (xScale_invert w x)\<rparr>)
       (d3_range 0 w 2)
   \<and> d3_range 0 w 2 = map (\<lambda>i. 2 * real i) [0 ..< nat \<lceil>w / 2\<rceil>]
   \<and> set (d3_range 0 w 2) = {x. \<exists>i::nat. x = 2 * real i \<and> x < w}
   \<and> (w \<noteq> 0 \<longrightarrow> xScale_invert w x = 10 * 2000 powr (x / w)
                \<and> xScale_invert w 0 = 10 \<and> xScale_invert w w = 20000)
   \<and> totalCurve (updateCurves st) = lineData (innerWidth st) (internalFilters st)
   \<and> selectedArea (updateCurves st) =
       map_option (selectedLineData (innerWidth st)) (selectedFilter st)
   \<and> updateCurves (st\<lparr>totalCurve := c, selectedArea := a\<rparr>) = updateCurves st
   \<and> (draggable st = Some dragged \<and> is_drag e \<longrightarrow>
        totalCurve (step st e) = lineData (innerWidth st) (internalFilters (step st e))
      \<and> selectedArea (step st e) =
          map_option (selectedLineData (innerWidth st)) (selectedFilter (step st e)))"
proof -
  have a: "w \<noteq> 0 \<longrightarrow> xScale_invert w x = 10 * 2000 powr (x / w)
                \<and> xScale_invert w 0 = 10 \<and> xScale_invert w w = 20000"
    using xScale_invert_closed_form [of w x] xScale_invert_ends [of w] by blast
  have b: "draggable st = Some dragged \<and> is_drag e \<longrightarrow>
        totalCurve (step st e) = lineData (innerWidth st) (internalFilters (step st e))
      \<and> selectedArea (step st e) =
          map_option (selectedLineData (innerWidth st)) (selectedFilter (step st e))"
    using drag_redraws [of st dragged e] by blast
  from a b show ?thesis
    by (simp only: lineData_def selectedLineData_def d3_range_steps [symmetric] d3_range_set
        updateCurves_curves updateCurves_recomputed simp_thms)
qed

theorem sampled_curve_witness:
  "d3_range 0 4 2 = [0, 2]
   \<and> map sfreq (lineData 4 []) = [10, 10 * 2000 powr (1 / 2)]
   \<and> map sdb (lineData 4 []) = [Num 0, Num 0]
   \<and> totalCurve (step dragState (MainDrag 0 155)) =
       lineData 700 (internalFilters (step dragState (MainDrag 0 155)))"
proof -
  have n: "[0 ..< 2] = [0, 1::nat]"
    by (simp add: numeral_2_eq_2)
  have r: "d3_range 0 4 2 = [0, 2]"
    using sampled_curve [of 4] by (simp add: n)
  have x: "xScale_invert 4 0 = 10" "xScale_invert 4 2 = 10 * 2000 powr (1 / 2)"
    using sampled_curve [of 4 _ _ 0] sampled_curve [of 4 _ _ 2] by simp_all
  have l: "lineData 4 [] = [\<lparr>sfreq = 10, sdb = Num 0\<rparr>,
                            \<lparr>sfreq = 10 * 2000 powr (1 / 2), sdb = Num 0\<rparr>]"
    by (simp add: lineData_def r x getTotalGain_def)
  have "totalCurve (step dragState (MainDrag 0 155)) =
          lineData (innerWidth dragState) (internalFilters (step dragState (MainDrag 0 155)))"
    using sampled_curve [of _ _ _ _ dragState _ _ scenarioA "MainDrag 0 155"] dragState_draggable
    by simp
  then show ?thesis
    using r l by (simp add: dragState_def)
qed

section \<open>Propagation of changes during a drag\<close>

lemma throttled_forwarded:
  assumes "\<not> inThrottle (thr st)"
  shows "filters (throttledFiltersUpdate v st) = v"
    and "thr (throttledFiltersUpdate v st) =
           \<lparr>inThrottle = True, pending = pending (thr st) @ [clock st + 50]\<rparr>"
  using assms by (simp_all add: throttledFiltersUpdate_def throttle_def)

lemma throttled_dropped:
  assumes "inThrottle (thr st)"
  shows "throttledFiltersUpdate v st = st"
  using assms by (simp add: throttledFiltersUpdate_def throttle_def)

lemma drag_forwarded:
  assumes "draggable st = Some sf" and "idle st" and "is_drag e"
  shows "filters (step st e) = internalFilters (step st e)"
    and "waiting (clock st + 50) (step st e)"
    and "clock (step st e) = clock st"
proof -
  have n: "\<not> inThrottle (thr st)" and p: "pending (thr st) = []"
    using assms(2) by (simp_all add: idle_def)
  show "filters (step st e) = internalFilters (step st e)"
    using assms(1,3) n
    by (cases e) (simp_all add: handleDrag_drag_def qDrag_drag_def Let_def throttled_forwarded)
  show "waiting (clock st + 50) (step st e)"
    using assms(1,3) n p
    by (cases e)
      (simp_all add: handleDrag_drag_def qDrag_drag_def Let_def throttled_forwarded waiting_def)
  show "clock (step st e) = clock st"
    using assms(1,3)
    by (cases e) (simp_all add: handleDrag_drag_def qDrag_drag_def Let_def)
qed

lemma drag_dropped:
  assumes "waiting dl st" and "is_drag e"
  shows "filters (step st e) = filters st"
    and "waiting dl (step st e)"
    and "clock (step st e) = clock st"
proof -
  have i: "inThrottle (thr st)"
    using assms(1) by (simp add: waiting_def)
  have "filters (step st e) = filters st \<and> thr (step st e) = thr st
          \<and> clock (step st e) = clock st"
    using assms(2) i
    by (cases e; cases "draggable st")
      (simp_all add: handleDrag_drag_def qDrag_drag_def Let_def throttled_dropped)
  then show "filters (step st e) = filters st" "waiting dl (step st e)"
    "clock (step st e) = clock st"
    using assms(1) by (simp_all add: waiting_def)
qed

lemma elapse_before_deadline:
  assumes "waiting dl st" and "clock st + n < dl"
  shows "filters (elapse n st) = filters st"
    and "waiting dl (elapse n st)"
    and "clock (elapse n st) = clock st + n"
  using assms by (simp_all add: elapse_def waiting_def run_timeouts_def)

lemma elapse_to_deadline:
  assumes "waiting dl st" and "dl \<le> clock st + n"
  shows "idle (elapse n st)" and "filters (elapse n st) = filters st"
  using assms by (simp_all add: elapse_def waiting_def run_timeouts_def idle_def)

lemma elapse_filters: "filters (elapse n st) = filters st"
  by (simp add: elapse_def)

lemma drag_start_frame:
  "filters (drag_start st) = filters st" "thr (drag_start st) = thr st"
  "clock (drag_start st) = clock st"
  by (simp_all add: drag_start_def split: option.splits)

lemma run_Cons: "run st (e # es) = run (step st e) es"
  by (simp add: run_def)

lemma window_drops:
  assumes "waiting dl st" and "clock st + elapsed es < dl" and "DragEnd \<notin> set es"
  shows "filters (run st es) = filters st \<and> waiting dl (run st es)
       \<and> clock (run st es) = clock st + elapsed es"
  using assms
proof (induction es arbitrary: st)
  case Nil
  then show ?case by (simp add: run_def)
next
  case (Cons e es)
  show ?case
  proof (cases e)
    case DragStart
    then have "waiting dl (step st e)" "clock (step st e) = clock st"
      "filters (step st e) = filters st"
      using Cons.prems(1) by (simp_all add: waiting_def drag_start_frame)
    then show ?thesis
      using Cons.IH [of "step st e"] Cons.prems DragStart by (simp add: run_Cons)
  next
    case (MainDrag x y)
    then have "is_drag e" by simp
    then show ?thesis
      using Cons.IH [of "step st e"] Cons.prems MainDrag
        drag_dropped [OF Cons.prems(1), of e]
      by (simp add: run_Cons)
  next
    case (QDrag d x)
    then have "is_drag e" by simp
    then show ?thesis
      using Cons.IH [of "step st e"] Cons.prems QDrag
        drag_dropped [OF Cons.prems(1), of e]
      by (simp add: run_Cons)
  next
    case DragEnd
    then show ?thesis using Cons.prems(3) by simp
  next
    case (Elapse n)
    then have "clock st + n < dl"
      using Cons.prems(2) by simp
    then show ?thesis
      using Cons.IH [of "step st e"] Cons.prems Elapse
        elapse_before_deadline [OF Cons.prems(1), of n]
      by (simp add: run_Cons)
  qed
qed

lemma drag_end_writes:
  assumes "draggable st = Some sf"
  shows "filters (drag_end st) = internalFilters st"
    and "internalFilters (drag_end st) = internalFilters st"
    and "\<not> isDragging (drag_end st)"
  using assms by (simp_all add: drag_end_def)


lemma draggable_step:
  assumes "draggable st = Some sf"
  shows "\<exists>sf'. draggable (step st e) = Some sf'"
proof -
  have sel: "find (\<lambda>f. fid f = selectedId st) (internalFilters st) = Some sf"
    and nc: "ftype sf \<noteq> Custom" and i: "fid sf = selectedId st"
    using draggable_selected [OF assms] by (simp_all add: selectedFilter_def)
  show ?thesis
  proof (cases e)
    case (MainDrag x y)
    let ?g = "handleDrag_update (innerWidth st) x y"
    have "fid (?g sf) = selectedId st" "ftype (?g sf) \<noteq> Custom"
      using i nc by (simp_all add: handleDrag_update_eq)
    then show ?thesis
      using MainDrag find_update_selected [OF sel, of ?g]
      by (simp add: draggable_def selectedFilter_def handleDrag_drag_internal [OF assms])
  next
    case (QDrag d x)
    let ?g = "qDrag_update (innerWidth st) d x"
    have "fid (?g sf) = selectedId st" "ftype (?g sf) \<noteq> Custom"
      using i nc by (simp_all add: qDrag_update_frame)
    then show ?thesis
      using QDrag find_update_selected [OF sel, of ?g]
      by (simp add: draggable_def selectedFilter_def qDrag_drag_internal [OF assms])
  next
    case DragStart
    then show ?thesis
      using assms by (simp add: drag_start_def draggable_def selectedFilter_def)
  next
    case DragEnd
    then show ?thesis
      using assms by (simp add: drag_end_def draggable_def selectedFilter_def)
  next
    case (Elapse n)
    then show ?thesis
      using assms by (simp add: elapse_def draggable_def selectedFilter_def)
  qed
qed

lemma draggable_run:
  assumes "draggable st = Some sf"
  shows "\<exists>sf'. draggable (run st es) = Some sf'"
  using assms
proof (induction es arbitrary: st sf)
  case Nil
  then show ?case by (simp add: run_def)
next
  case (Cons e es)
  obtain sf1 where "draggable (step st e) = Some sf1"
    using draggable_step [OF Cons.prems] by blast
  then show ?case
    using Cons.IH by (simp add: run_Cons)
qed

lemma throttle_invariant:
  assumes "idle st \<or> (\<exists>dl. waiting dl st)"
  shows "idle (step st e) \<or> (\<exists>dl. waiting dl (step st e))"
proof (cases e)
  case DragStart
  then show ?thesis
    using assms by (simp add: idle_def waiting_def drag_start_frame)
next
  case (MainDrag x y)
  then show ?thesis
    using assms
    by (cases "draggable st")
      (auto simp: idle_def waiting_def handleDrag_drag_def Let_def throttled_forwarded
        throttled_dropped)
next
  case (QDrag d x)
  then show ?thesis
    using assms
    by (cases "draggable st")
      (auto simp: idle_def waiting_def qDrag_drag_def Let_def throttled_forwarded
        throttled_dropped)
next
  case DragEnd
  then show ?thesis
    using assms by (cases "draggable st") (auto simp: idle_def waiting_def drag_end_def)
next
  case (Elapse n)
  then show ?thesis
    using assms by (auto simp: idle_def waiting_def elapse_def run_timeouts_def)
qed

text \<open>
  C7. During a drag, changes reach the parent's \<open>filters\<close> through a leading-edge throttle
  of 50 ms: when the throttle is open, the first change is forwarded at once; every
  further change that arrives while less than 50 ms have passed is dropped, so \<open>filters\<close>
  stays at the first change. A dropped change is not queued: when time passes, also
  beyond the 50 ms at which the timeout runs, \<open>filters\<close> is still the first change, and
  the timeout only opens the throttle again. The \<open>end\<close> handler always writes the
  current internal filters, whatever the throttle. For changes at 0, 10 and 20 ms only the
  first one is propagated.
\<close>

theorem throttle_leading_edge:
  assumes "draggable st = Some sf" and "idle st" and "is_drag e"
    and "DragEnd \<notin> set es" and "elapsed es < 50"
  shows "filters (step st e) = internalFilters (step st e)
       \<and> filters (run (step st e) es) = filters (step st e)
       \<and> filters (elapse n (run (step st e) es)) = filters (step st e)
       \<and> (50 \<le> elapsed es + n \<longrightarrow> idle (elapse n (run (step st e) es)))
       \<and> filters (drag_end (run (step st e) es)) = internalFilters (run (step st e) es)
       \<and> filters (drag_end (run (step st e) (es @ [Elapse n]))) =
           internalFilters (run (step st e) (es @ [Elapse n]))"
proof -
  let ?st1 = "step st e"
  have w: "waiting (clock st + 50) ?st1" and c: "clock ?st1 = clock st"
    and f: "filters ?st1 = internalFilters ?st1"
    using drag_forwarded [OF assms(1,2,3)] by simp_all
  have "clock ?st1 + elapsed es < clock st + 50"
    using c assms(5) by simp
  from window_drops [OF w this assms(4)]
  have d: "filters (run ?st1 es) = filters ?st1" and w2: "waiting (clock st + 50) (run ?st1 es)"
    and c2: "clock (run ?st1 es) = clock st + elapsed es"
    by (simp_all add: c)
  have i: "50 \<le> elapsed es + n \<longrightarrow> idle (elapse n (run ?st1 es))"
    using elapse_to_deadline(1) [OF w2, of n] c2 by simp
  obtain sf1 where "draggable ?st1 = Some sf1"
    using draggable_step [OF assms(1)] by blast
  then obtain sf2 sf3 where "draggable (run ?st1 es) = Some sf2"
    and "draggable (run ?st1 (es @ [Elapse n])) = Some sf3"
    using draggable_run [of ?st1 sf1] by blast
  then have "filters (drag_end (run ?st1 es)) = internalFilters (run ?st1 es)"
    and "filters (drag_end (run ?st1 (es @ [Elapse n]))) =
           internalFilters (run ?st1 (es @ [Elapse n]))"
    using drag_end_writes(1) by simp_all
  moreover have "filters (elapse n (run ?st1 es)) = filters ?st1"
    using d by (simp add: elapse_filters)
  ultimately show ?thesis
    using f d i by simp
qed


lemma handler_selection:
  "selectedId (handleDrag_drag x y st) = selectedId st"
  "innerWidth (handleDrag_drag x y st) = innerWidth st"
  "selectedId (elapse n st) = selectedId st"
  "innerWidth (elapse n st) = innerWidth st"
  by (simp_all add: handleDrag_drag_def elapse_def Let_def split: option.splits)

lemma handler_internal:
  "internalFilters (handleDrag_drag x y st) =
     (case draggable st of
        None \<Rightarrow> internalFilters st
      | Some sf \<Rightarrow>
          update_selected (selectedId st) (handleDrag_update (innerWidth st) x y)
            (internalFilters st))"
  "internalFilters (elapse n st) = internalFilters st"
  by (simp_all add: handleDrag_drag_def elapse_def Let_def split: option.splits)

lemma run_Nil: "run st [] = st"
  by (simp add: run_def)

theorem throttle_leading_edge_witness:
  "filters (run dragState [MainDrag 0 155, Elapse 10, MainDrag 700 0, Elapse 10, MainDrag 700 310])
     = [scenarioA\<lparr>hz := 20, db := 0\<rparr>, lowShelf 100 6 0.707]
   \<and> internalFilters
       (run dragState [MainDrag 0 155, Elapse 10, MainDrag 700 0, Elapse 10, MainDrag 700 310])
     = [scenarioA\<lparr>hz := 20000, db := - 25\<rparr>, lowShelf 100 6 0.707]
   \<and> filters (drag_end
       (run dragState [MainDrag 0 155, Elapse 10, MainDrag 700 0, Elapse 10, MainDrag 700 310]))
     = [scenarioA\<lparr>hz := 20000, db := - 25\<rparr>, lowShelf 100 6 0.707]
   \<and> idle (elapse 30
       (run dragState [MainDrag 0 155, Elapse 10, MainDrag 700 0, Elapse 10, MainDrag 700 310]))
   \<and> filters (elapse 30
       (run dragState [MainDrag 0 155, Elapse 10, MainDrag 700 0, Elapse 10, MainDrag 700 310]))
     = [scenarioA\<lparr>hz := 20, db := 0\<rparr>, lowShelf 100 6 0.707]
   \<and> filters (elapse 100
       (run dragState [MainDrag 0 155, Elapse 10, MainDrag 700 0, Elapse 10, MainDrag 700 310]))
     = [scenarioA\<lparr>hz := 20, db := 0\<rparr>, lowShelf 100 6 0.707]"
proof -
  let ?es = "[Elapse 10, MainDrag 700 0, Elapse 10, MainDrag 700 310]"
  have i: "idle dragState"
    by (simp add: idle_def dragState_def throttle_init_def)
  have e: "is_drag (MainDrag 0 155)" "DragEnd \<notin> set ?es" "elapsed ?es < 50"
    by simp_all
  have y: "yScale_invert 155 = 0" "yScale_invert 310 = - 25"
    by (simp_all add: yScale_invert_closed_form)
  have x: "xScale_invert 700 0 = 10" "xScale_invert 700 700 = 20000"
    by (simp_all add: xScale_invert_zero xScale_invert_full)
  have w: "innerWidth dragState = 700" "selectedId dragState = 1"
    "internalFilters dragState = [scenarioA, lowShelf 100 6 0.707]"
    by (simp_all add: dragState_def)
  have f1: "internalFilters (step dragState (MainDrag 0 155))
              = [scenarioA\<lparr>hz := 20, db := 0\<rparr>, lowShelf 100 6 0.707]"
    by (simp add: handler_internal dragState_draggable w x y handleDrag_update_eq scenarioA_def)
  have f3: "internalFilters (run (step dragState (MainDrag 0 155)) ?es)
              = [scenarioA\<lparr>hz := 20000, db := - 25\<rparr>, lowShelf 100 6 0.707]"
    by (simp add: run_Cons run_Nil handler_internal handler_selection draggable_def selectedFilter_def
        dragState_draggable w x y handleDrag_update_eq scenarioA_def lowShelf_def)
  show ?thesis
    using throttle_leading_edge [OF dragState_draggable i e, of 30]
      throttle_leading_edge [OF dragState_draggable i e, of 100] f1 f3
    by (simp add: run_Cons)
qed

end
